theory Spec2Isabelle
  imports Main "HOL-Library.Sublist"
begin

section \<open>JavaScript strings\<close>

text \<open>
  The source is TypeScript running on Deno. A JavaScript string is a sequence of UTF-16
  code units, and its regular expressions (none here has the flag \<^verbatim>\<open>u\<close>),
  \<^verbatim>\<open>split\<close>, \<^verbatim>\<open>trim\<close> and \<^verbatim>\<open>includes\<close> work on code units. A code unit is
  modelled as an integer and a string as the list of its code units; \<open>js\<close> gives the
  code units of a literal (the literals of the source are ASCII, but for the arrow of
  two messages, which is given by its number).
\<close>

type_synonym jschar = int

type_synonym jstring = "jschar list"

definition js :: "string \<Rightarrow> jstring" where
  "js s = map of_char s"

definition LF :: jschar where "LF = 0x0A"
definition CR :: jschar where "CR = 0x0D"
definition TAB :: jschar where "TAB = 0x09"

text \<open>The line terminators: LF, CR, U+2028 and U+2029.\<close>

definition is_line_terminator :: "jschar \<Rightarrow> bool" where
  "is_line_terminator c = (c = 0x0A \<or> c = 0x0D \<or> c = 0x2028 \<or> c = 0x2029)"

text \<open>
  The class \<^verbatim>\<open>\s\<close>, which is also what \<^verbatim>\<open>String.prototype.trim\<close> removes: the
  white space of the language (TAB, VT, FF, U+FEFF and the space separators of Unicode:
  the space, U+00A0, U+1680, U+2000 to U+200A, U+202F, U+205F, U+3000) and the line
  terminators. \<^verbatim>\<open>\S\<close> is every other code unit.
\<close>

definition is_space :: "jschar \<Rightarrow> bool" where
  "is_space c =
     (c \<in> set [0x09, 0x0B, 0x0C, 0x20, 0xA0, 0x1680, 0x202F, 0x205F, 0x3000, 0xFEFF] \<or>
      (0x2000 \<le> c \<and> c \<le> 0x200A) \<or> is_line_terminator c)"

text \<open>\<^verbatim>\<open>\d\<close> is \<^verbatim>\<open>[0-9]\<close>; the other class used is \<^verbatim>\<open>[a-f0-9]\<close>.\<close>

definition is_digit :: "jschar \<Rightarrow> bool" where
  "is_digit c = (0x30 \<le> c \<and> c \<le> 0x39)"

definition is_hex :: "jschar \<Rightarrow> bool" where
  "is_hex c = (is_digit c \<or> (0x61 \<le> c \<and> c \<le> 0x66))"

text \<open>\<^verbatim>\<open>.\<close> of a regular expression: any code unit but a line terminator.\<close>

definition is_dot :: "jschar \<Rightarrow> bool" where
  "is_dot c = (\<not> is_line_terminator c)"

text \<open>\<^verbatim>\<open>s.trim()\<close>: white space removed at both ends.\<close>

definition js_trim :: "jstring \<Rightarrow> jstring" where
  "js_trim s = rev (dropWhile is_space (rev (dropWhile is_space s)))"

text \<open>\<^verbatim>\<open>s.includes(needle)\<close>.\<close>

fun js_includes :: "jstring \<Rightarrow> jstring \<Rightarrow> bool" where
  "js_includes [] needle = (needle = [])"
| "js_includes (c # cs) needle = (prefix needle (c # cs) \<or> js_includes cs needle)"

text \<open>
  \<^verbatim>\<open>s.split("\n")\<close>: the fields between the line feeds; a string without one is
  its own single field (so the empty string gives one empty field).
\<close>

function js_split_lf :: "jstring \<Rightarrow> jstring list" where
  "js_split_lf s =
     (case dropWhile (\<lambda>c. c \<noteq> LF) s of
        [] \<Rightarrow> [s]
      | _ # rest \<Rightarrow> takeWhile (\<lambda>c. c \<noteq> LF) s # js_split_lf rest)"
  by pat_completeness auto
termination
proof (relation "measure length")
  show "wf (measure length)" by simp
next
  fix s :: jstring and x rest
  assume "dropWhile (\<lambda>c. c \<noteq> LF) s = x # rest"
  then have "length (x # rest) \<le> length s"
    using length_dropWhile_le [of "\<lambda>c. c \<noteq> LF" s] by simp
  then show "(rest, s) \<in> measure length" by simp
qed

text \<open>
  \<^verbatim>\<open>s.split(/\r?\n/)\<close>: the separator is a line feed together with a carriage
  return directly before it, when there is one. The leftmost match starts one character
  before the first line feed exactly when that character is a carriage return.
\<close>

definition strip_cr :: "jstring \<Rightarrow> jstring" where
  "strip_cr l = (if l \<noteq> [] \<and> last l = CR then butlast l else l)"

function js_split_nl :: "jstring \<Rightarrow> jstring list" where
  "js_split_nl s =
     (case dropWhile (\<lambda>c. c \<noteq> LF) s of
        [] \<Rightarrow> [s]
      | _ # rest \<Rightarrow> strip_cr (takeWhile (\<lambda>c. c \<noteq> LF) s) # js_split_nl rest)"
  by pat_completeness auto
termination
proof (relation "measure length")
  show "wf (measure length)" by simp
next
  fix s :: jstring and x rest
  assume "dropWhile (\<lambda>c. c \<noteq> LF) s = x # rest"
  then have "length (x # rest) \<le> length s"
    using length_dropWhile_le [of "\<lambda>c. c \<noteq> LF" s] by simp
  then show "(rest, s) \<in> measure length" by simp
qed

text \<open>
  \<^verbatim>\<open>s.split(/\s+/)\<close>: the separator is a maximal run of white space. White space
  at the start gives an empty first field, white space at the end an empty last field.
\<close>

function js_split_ws :: "jstring \<Rightarrow> jstring list" where
  "js_split_ws s =
     (case dropWhile (\<lambda>c. \<not> is_space c) s of
        [] \<Rightarrow> [s]
      | _ # rest \<Rightarrow> takeWhile (\<lambda>c. \<not> is_space c) s # js_split_ws (dropWhile is_space rest))"
  by pat_completeness auto
termination
proof (relation "measure length")
  show "wf (measure length)" by simp
next
  fix s :: jstring and x rest
  assume "dropWhile (\<lambda>c. \<not> is_space c) s = x # rest"
  then have "length (x # rest) \<le> length s"
    using length_dropWhile_le [of "\<lambda>c. \<not> is_space c" s] by simp
  moreover have "length (dropWhile is_space rest) \<le> length rest"
    by (rule length_dropWhile_le)
  ultimately show "(dropWhile is_space rest, s) \<in> measure length" by simp
qed

declare js_split_lf.simps [simp del] js_split_nl.simps [simp del] js_split_ws.simps [simp del]

text \<open>\<^verbatim>\<open>xs.filter(Boolean)\<close> on strings keeps the non-empty ones.\<close>

definition filter_Boolean :: "jstring list \<Rightarrow> jstring list" where
  "filter_Boolean xs = filter (\<lambda>x. x \<noteq> []) xs"

text \<open>
  \<^verbatim>\<open>Array.from(new Set(xs))\<close>: a Set keeps its elements in the order of their
  first insertion, and adding an element it already has changes nothing.
\<close>

definition set_add :: "'a list \<Rightarrow> 'a \<Rightarrow> 'a list" where
  "set_add acc x = (if x \<in> set acc then acc else acc @ [x])"

definition array_from_set :: "'a list \<Rightarrow> 'a list" where
  "array_from_set xs = foldl set_add [] xs"

section \<open>parseUnmergedFiles\<close>

text \<open>
  \<^verbatim>\<open>parts.slice(-1)[0]\<close> is the last field; \<^verbatim>\<open>split\<close> never returns an empty
  array, so there is one.
\<close>

definition parseUnmergedFiles :: "jstring \<Rightarrow> jstring list" where
  "parseUnmergedFiles lsOutput =
     (if lsOutput = [] then []
      else array_from_set
             (map (\<lambda>line. last (js_split_ws line)) (filter_Boolean (js_split_nl lsOutput))))"

section \<open>Values, exceptions and effects\<close>

text \<open>
  Exceptions are values. \<^verbatim>\<open>GitError\<close> carries its message and exit code;
  \<^verbatim>\<open>Error\<close> is the plain JavaScript error the library throws itself;
  \<^verbatim>\<open>Thrown\<close> stands for whatever the runtime throws (a subprocess that cannot be
  spawned, a file that cannot be created or removed).
\<close>

datatype exn = GitError jstring int | Error jstring | Thrown jstring

record CmdResult =
  code :: int
  stdout :: jstring
  stderr :: jstring

text \<open>
  The values that reach a command line. The declared type of every argument is
  \<^verbatim>\<open>string\<close>, but \<^verbatim>\<open>deno run\<close> does not type-check, and \<^verbatim>\<open>main\<close> passes on
  the promise of an asynchronous call it never awaited. A promise is modelled by its
  settled outcome: the value it resolves to, or the exception it rejects with.
\<close>

datatype jsval = JStr jstring | JPromise "exn + jstring"

text \<open>Truthiness: the empty string is falsy, every object (so every promise) is truthy.\<close>

fun truthy :: "jsval \<Rightarrow> bool" where
  "truthy (JStr s) = (s \<noteq> [])"
| "truthy (JPromise _) = True"

text \<open>\<^verbatim>\<open>a || b\<close>.\<close>

definition js_or :: "jsval \<Rightarrow> jsval \<Rightarrow> jsval" where
  "js_or a b = (if truthy a then a else b)"

text \<open>
  What a run does to the outside world is recorded as a trace of events: every
  subprocess with its argument vector, the environment overrides and what
  \<^verbatim>\<open>runCmd\<close> got back, every temporary file made and every removal tried.
\<close>

datatype event =
    Ran "jsval list" "(jstring \<times> jstring) list" "exn + CmdResult"
  | MadeTemp "exn + jstring"
  | Removed jstring "exn + unit"

text \<open>
  The runtime and the repository are a parameter: an arbitrary world \<open>'w\<close> with the three
  operations the library calls. Each may fail with an exception and may change the world.
\<close>

record 'w sys =
  sys_exec :: "jsval list \<Rightarrow> (jstring \<times> jstring) list \<Rightarrow> 'w \<Rightarrow> (exn + CmdResult) \<times> 'w"
  sys_makeTempFile :: "'w \<Rightarrow> (exn + jstring) \<times> 'w"
  sys_remove :: "jstring \<Rightarrow> 'w \<Rightarrow> (exn + unit) \<times> 'w"

type_synonym 'w st = "'w \<times> event list"

type_synonym ('a, 'w) io = "'w st \<Rightarrow> (exn + 'a) \<times> 'w st"

definition io_return :: "'a \<Rightarrow> ('a, 'w) io" where
  "io_return x = (\<lambda>s. (Inr x, s))"

definition io_throw :: "exn \<Rightarrow> ('a, 'w) io" where
  "io_throw e = (\<lambda>s. (Inl e, s))"

definition io_bind :: "('a, 'w) io \<Rightarrow> ('a \<Rightarrow> ('b, 'w) io) \<Rightarrow> ('b, 'w) io" where
  "io_bind m f = (\<lambda>s. case m s of (Inl e, s') \<Rightarrow> (Inl e, s') | (Inr x, s') \<Rightarrow> f x s')"

text \<open>\<^verbatim>\<open>try { m } catch (e) { h(e) }\<close>, and \<^verbatim>\<open>promise.catch(h)\<close>.\<close>

definition io_catch :: "('a, 'w) io \<Rightarrow> (exn \<Rightarrow> ('a, 'w) io) \<Rightarrow> ('a, 'w) io" where
  "io_catch m h = (\<lambda>s. case m s of (Inl e, s') \<Rightarrow> h e s' | (Inr x, s') \<Rightarrow> (Inr x, s'))"

text \<open>
  \<^verbatim>\<open>try { m } finally { fin }\<close>: the finaliser runs whatever \<open>m\<close> did; the block
  completes as \<open>m\<close> did unless the finaliser itself throws.
\<close>

definition io_finally :: "('a, 'w) io \<Rightarrow> ('b, 'w) io \<Rightarrow> ('a, 'w) io" where
  "io_finally m fin =
     (\<lambda>s. case m s of (r, s') \<Rightarrow>
        (case fin s' of (Inl e, s'') \<Rightarrow> (Inl e, s'') | (Inr _, s'') \<Rightarrow> (r, s'')))"

text \<open>
  An asynchronous function called without \<^verbatim>\<open>await\<close>: the call itself never
  throws and yields a promise. Its subprocess is spawned at the call; the model lets it
  finish there (the commands concerned only read the repository).
\<close>

definition js_async_call :: "(jstring, 'w) io \<Rightarrow> (jsval, 'w) io" where
  "js_async_call m = (\<lambda>s. case m s of (r, s') \<Rightarrow> (Inr (JPromise r), s'))"

text \<open>
  \<^verbatim>\<open>await v\<close>, and \<^verbatim>\<open>return v\<close> in an asynchronous function whose caller awaits:
  a promise is replaced by what it settled to.
\<close>

fun js_await :: "jsval \<Rightarrow> (jstring, 'w) io" where
  "js_await (JStr s) = io_return s"
| "js_await (JPromise (Inr s)) = io_return s"
| "js_await (JPromise (Inl e)) = io_throw e"

section \<open>runCmd\<close>

text \<open>
  \<^verbatim>\<open>runCmd(cmd, env)\<close> spawns the command, waits for it and trims both outputs.
  A missing \<^verbatim>\<open>env\<close> is the empty list of overrides.
\<close>

definition runCmd :: "'w sys \<Rightarrow> jsval list \<Rightarrow> (jstring \<times> jstring) list \<Rightarrow> (CmdResult, 'w) io" where
  "runCmd sys cmd env =
     (\<lambda>(w, tr). case sys_exec sys cmd env w of
        (Inl e, w') \<Rightarrow> (Inl e, (w', tr @ [Ran cmd env (Inl e)]))
      | (Inr r, w') \<Rightarrow>
          (let res = \<lparr>code = code r, stdout = js_trim (stdout r), stderr = js_trim (stderr r)\<rparr>
           in (Inr res, (w', tr @ [Ran cmd env (Inr res)]))))"

text \<open>\<^verbatim>\<open>r.code === 0 && r.stdout\<close>.\<close>

definition ok_with_output :: "CmdResult \<Rightarrow> bool" where
  "ok_with_output r = (code r = 0 \<and> stdout r \<noteq> [])"

section \<open>resolveCommit and revToTree\<close>

record ResolvedCommit =
  commit :: jstring
  resolvedRef :: jstring

definition apostrophe :: jstring where
  "apostrophe = [0x27]"

text \<open>\<^verbatim>\<open>git rev-parse --verify <name>^{commit}\<close>\<close>

definition verify_cmd :: "jstring \<Rightarrow> jsval list" where
  "verify_cmd name = [JStr (js ''git''), JStr (js ''rev-parse''), JStr (js ''--verify''), JStr (name @ (js ''^{commit}''))]"

fun resolveCommit_remotes :: "'w sys \<Rightarrow> jstring \<Rightarrow> jstring list \<Rightarrow> (ResolvedCommit, 'w) io" where
  "resolveCommit_remotes sys ref [] =
     io_throw (GitError ((js ''Couldn'') @ apostrophe @ (js ''t resolve '') @ apostrophe @ ref @ apostrophe @ (js '' to a commit'')) 2)"
| "resolveCommit_remotes sys ref (remote # remotes) =
     (let cand = remote @ (js ''/'') @ ref in
      io_bind (runCmd sys (verify_cmd cand) [])
        (\<lambda>s. if ok_with_output s then io_return \<lparr>commit = stdout s, resolvedRef = cand\<rparr>
             else resolveCommit_remotes sys ref remotes))"

definition resolveCommit :: "'w sys \<Rightarrow> jstring \<Rightarrow> (ResolvedCommit, 'w) io" where
  "resolveCommit sys ref =
     io_bind (runCmd sys (verify_cmd ref) [])
       (\<lambda>r. if ok_with_output r then io_return \<lparr>commit = stdout r, resolvedRef = ref\<rparr>
            else io_bind (runCmd sys [JStr (js ''git''), JStr (js ''remote'')] [])
                   (\<lambda>rr. resolveCommit_remotes sys ref (filter_Boolean (js_split_nl (stdout rr)))))"

text \<open>
  \<^verbatim>\<open>revToTree(rev, emptyTree)\<close> is asynchronous: where it returns \<^verbatim>\<open>emptyTree\<close>
  and that is a promise, its caller's \<^verbatim>\<open>await\<close> sees what the promise settled to.
\<close>

definition revToTree :: "'w sys \<Rightarrow> jstring \<Rightarrow> jsval \<Rightarrow> (jstring, 'w) io" where
  "revToTree sys rv emptyTree =
     (if rv = [] then js_await emptyTree
      else io_bind (runCmd sys [JStr (js ''git''), JStr (js ''rev-parse''), JStr (rv @ (js ''^{tree}''))] [])
             (\<lambda>r. if ok_with_output r then io_return (stdout r) else js_await emptyTree))"

section \<open>TempIndex\<close>

record TempIndex =
  path :: "jstring option"

definition new_TempIndex :: TempIndex where
  "new_TempIndex = \<lparr>path = None\<rparr>"

text \<open>\<^verbatim>\<open>if (this.path)\<close>: neither null nor the empty string.\<close>

definition has_path :: "TempIndex \<Rightarrow> bool" where
  "has_path ti = (case path ti of None \<Rightarrow> False | Some p \<Rightarrow> p \<noteq> [])"

definition deno_makeTempFile :: "'w sys \<Rightarrow> (jstring, 'w) io" where
  "deno_makeTempFile sys =
     (\<lambda>(w, tr). case sys_makeTempFile sys w of (r, w') \<Rightarrow> (r, (w', tr @ [MadeTemp r])))"

definition deno_remove :: "'w sys \<Rightarrow> jstring \<Rightarrow> (unit, 'w) io" where
  "deno_remove sys p =
     (\<lambda>(w, tr). case sys_remove sys p w of (r, w') \<Rightarrow> (r, (w', tr @ [Removed p r])))"

text \<open>The methods return the object as they leave it, next to their result.\<close>

definition create :: "'w sys \<Rightarrow> TempIndex \<Rightarrow> (jstring \<times> TempIndex, 'w) io" where
  "create sys ti = io_bind (deno_makeTempFile sys) (\<lambda>p. io_return (p, ti\<lparr>path := Some p\<rparr>))"

definition cleanup :: "'w sys \<Rightarrow> TempIndex \<Rightarrow> (TempIndex, 'w) io" where
  "cleanup sys ti =
     (if has_path ti
      then io_catch (io_bind (deno_remove sys (the (path ti))) (\<lambda>_. io_return (ti\<lparr>path := None\<rparr>)))
             (\<lambda>_. io_return ti)
      else io_return ti)"

definition runGitWithIndex :: "'w sys \<Rightarrow> TempIndex \<Rightarrow> jsval list \<Rightarrow> (CmdResult, 'w) io" where
  "runGitWithIndex sys ti args =
     (if \<not> has_path ti then io_throw (Error (js ''Temporary index not created''))
      else runCmd sys (JStr (js ''git'') # args) [((js ''GIT_INDEX_FILE''), the (path ti))])"

section \<open>The two detection strategies\<close>

definition well_known_empty_tree :: jstring where
  "well_known_empty_tree = (js ''4b825dc642cb6eb9a060e54bf8d69288fbee4904'')"

definition getEmptyTreeHash :: "'w sys \<Rightarrow> (jstring, 'w) io" where
  "getEmptyTreeHash sys =
     io_bind (runCmd sys [JStr (js ''git''), JStr (js ''hash-object''), JStr (js ''-t''), JStr (js ''tree''), JStr (js ''/dev/null'')] [])
       (\<lambda>result. if ok_with_output result then io_return (stdout result)
                 else io_return well_known_empty_tree)"

definition read_tree_cmd :: "jstring \<Rightarrow> jstring \<Rightarrow> jstring \<Rightarrow> jsval list" where
  "read_tree_cmd baseTree oursTree theirsTree =
     [JStr (js ''read-tree''), JStr (js ''-m''), JStr (js ''--''), JStr baseTree, JStr oursTree, JStr theirsTree]"

definition ls_files_cmd :: "jsval list" where
  "ls_files_cmd = [JStr (js ''ls-files''), JStr (js ''-u''), JStr (js ''--stage'')]"

definition checkConflictsWithReadTree ::
  "'w sys \<Rightarrow> jstring \<Rightarrow> jstring \<Rightarrow> jstring \<Rightarrow> TempIndex \<Rightarrow> (jstring list, 'w) io" where
  "checkConflictsWithReadTree sys baseTree oursTree theirsTree tempIndex =
     io_bind (io_catch (runGitWithIndex sys tempIndex (read_tree_cmd baseTree oursTree theirsTree))
                (\<lambda>_. io_return \<lparr>code = 1, stdout = [], stderr = []\<rparr>))
       (\<lambda>_. io_bind (runGitWithIndex sys tempIndex ls_files_cmd)
               (\<lambda>lsRes. io_return (parseUnmergedFiles (stdout lsRes))))"

text \<open>
  \<^verbatim>\<open>/^(removed in (local|remote)|added in (local|remote)|changed in both)/m\<close>:
  with the flag \<^verbatim>\<open>m\<close> the anchor matches at the start of the text and after every
  line terminator.
\<close>

definition structural_headers :: "jstring list" where
  "structural_headers =
     [(js ''removed in local''), (js ''removed in remote''), (js ''added in local''), (js ''added in remote''),
      (js ''changed in both'')]"

definition starts_with_any :: "jstring list \<Rightarrow> jstring \<Rightarrow> bool" where
  "starts_with_any hs s = list_ex (\<lambda>h. prefix h s) hs"

fun test_multiline :: "jstring list \<Rightarrow> bool \<Rightarrow> jstring \<Rightarrow> bool" where
  "test_multiline hs at_start [] = False"
| "test_multiline hs at_start (c # cs) =
     ((at_start \<and> starts_with_any hs (c # cs)) \<or> test_multiline hs (is_line_terminator c) cs)"

definition conflict_marker :: jstring where
  "conflict_marker = (js ''<<<<<<< '')"

definition merge_tree_cmd :: "jsval \<Rightarrow> jstring \<Rightarrow> jstring \<Rightarrow> jsval \<Rightarrow> jsval list" where
  "merge_tree_cmd mergeBase oursCommit theirsCommit emptyTree =
     [JStr (js ''git''), JStr (js ''merge-tree''), js_or mergeBase emptyTree, JStr oursCommit, JStr theirsCommit]"

definition checkConflictsWithMergeTree ::
  "'w sys \<Rightarrow> jsval \<Rightarrow> jstring \<Rightarrow> jstring \<Rightarrow> jsval \<Rightarrow> (bool, 'w) io" where
  "checkConflictsWithMergeTree sys mergeBase oursCommit theirsCommit emptyTree =
     io_bind (runCmd sys (merge_tree_cmd mergeBase oursCommit theirsCommit emptyTree) [])
       (\<lambda>mergeTreeRes.
          if js_includes (stdout mergeTreeRes) conflict_marker then io_return True
          else if test_multiline structural_headers True (stdout mergeTreeRes) then io_return True
          else io_return False)"

section \<open>Regular expressions of the parsers\<close>

text \<open>
  Each matcher consumes a prefix of its input and returns the rest. \<^verbatim>\<open>P+\<close> is
  greedy; in every expression below the class that follows a \<^verbatim>\<open>+\<close> is disjoint
  from the class it repeats, so giving characters back never helps and the greedy
  reading is the only one. The exception is the end \<^verbatim>\<open>\s+(.+)$\<close>, handled in
  \<open>re_tail\<close>.
\<close>

definition re_plus :: "(jschar \<Rightarrow> bool) \<Rightarrow> jstring \<Rightarrow> jstring option" where
  "re_plus P s = (if s \<noteq> [] \<and> P (hd s) then Some (dropWhile P s) else None)"

definition re_alt :: "jstring list \<Rightarrow> jstring \<Rightarrow> jstring option" where
  "re_alt ls s = (case filter (\<lambda>l. prefix l s) ls of [] \<Rightarrow> None | l # _ \<Rightarrow> Some (drop (length l) s))"

text \<open>
  \<^verbatim>\<open>\s+(.+)$\<close> on the rest of a line, returning the group. After the white space
  \<open>w\<close> comes \<open>t\<close>. If \<open>t\<close> is not empty the group is \<open>t\<close>, which must be free of
  line terminators. If \<open>t\<close> is empty the white space gives its last character back to
  the group, which needs a second white-space character before it.
\<close>

definition re_tail :: "jstring \<Rightarrow> jstring option" where
  "re_tail r =
     (let w = takeWhile is_space r; t = dropWhile is_space r in
      if w = [] then None
      else if t \<noteq> [] then (if list_all is_dot t then Some t else None)
      else if 2 \<le> length w \<and> is_dot (last w) then Some [last w]
      else None)"

text \<open>\<^verbatim>\<open>\s+\d+\s+[a-f0-9]+\s+(.+)$\<close>\<close>

definition match_mode_hash_path :: "jstring \<Rightarrow> jstring option" where
  "match_mode_hash_path r =
     Option.bind (re_plus is_space r) (\<lambda>r1.
     Option.bind (re_plus is_digit r1) (\<lambda>r2.
     Option.bind (re_plus is_space r2) (\<lambda>r3.
     Option.bind (re_plus is_hex r3) re_tail)))"

text \<open>\<^verbatim>\<open>/^\s+(base|our|their)\s+\d+\s+[a-f0-9]+\s+(.+)$/\<close>, group 2.\<close>

definition match_side_meta :: "jstring \<Rightarrow> jstring option" where
  "match_side_meta l =
     Option.bind (re_plus is_space l) (\<lambda>r.
     Option.bind (re_alt [(js ''base''), (js ''our''), (js ''their'')] r) match_mode_hash_path)"

text \<open>\<^verbatim>\<open>/^(merged|result)\s+\d+\s+[a-f0-9]+\s+(.+)$/\<close>, group 2.\<close>

definition match_merged :: "jstring \<Rightarrow> jstring option" where
  "match_merged l = Option.bind (re_alt [(js ''merged''), (js ''result'')] l) match_mode_hash_path"

text \<open>\<^verbatim>\<open>/^R\d+\s+(\S+)\s+(\S+)$/\<close>, groups 1 and 2.\<close>

definition match_rename :: "jstring \<Rightarrow> (jstring \<times> jstring) option" where
  "match_rename l =
     (case l of
        [] \<Rightarrow> None
      | c # r \<Rightarrow>
          if c \<noteq> 0x52 then None
          else Option.bind (re_plus is_digit r) (\<lambda>r1.
               Option.bind (re_plus is_space r1) (\<lambda>r2.
               let oldName = takeWhile (\<lambda>c. \<not> is_space c) r2;
                   r3 = dropWhile (\<lambda>c. \<not> is_space c) r2
               in if oldName = [] then None
                  else Option.bind (re_plus is_space r3) (\<lambda>r4.
                       let newName = takeWhile (\<lambda>c. \<not> is_space c) r4
                       in if newName = [] \<or> dropWhile (\<lambda>c. \<not> is_space c) r4 \<noteq> [] then None
                          else Some (oldName, newName)))))"

section \<open>getFileConflictDetail\<close>

datatype conflict_type = content | rename_modify | modify_rename | delete_modify | modify_delete

datatype side = Ours | Theirs

record RenameInfo =
  old_path :: jstring
  new_path :: jstring
  side :: side

record FileConflictDetail =
  conflict_type :: conflict_type
  message :: "jstring option"
  rename :: "RenameInfo option"
  diff :: "jstring option"

text \<open>
  \<^verbatim>\<open>out.split("\n").map(line => line.match(re)).find(m => m && m[1] === file)\<close>:
  the first line that matches with the candidate as its old name.
\<close>

definition find_rename :: "jstring \<Rightarrow> jstring \<Rightarrow> (jstring \<times> jstring) option" where
  "find_rename out file =
     (case List.find (\<lambda>m. case m of None \<Rightarrow> False | Some (oldName, newName) \<Rightarrow> oldName = file)
             (map match_rename (js_split_lf out)) of
        Some (Some m) \<Rightarrow> Some m
      | _ \<Rightarrow> None)"

text \<open>\<^verbatim>\<open>d.stdout?.trim() || d.stderr?.trim() || undefined\<close>\<close>

definition diff_text :: "CmdResult \<Rightarrow> jstring option" where
  "diff_text d =
     (if js_trim (stdout d) \<noteq> [] then Some (js_trim (stdout d))
      else if js_trim (stderr d) \<noteq> [] then Some (js_trim (stderr d))
      else None)"

definition renames_cmd :: "jstring \<Rightarrow> jstring \<Rightarrow> jsval list" where
  "renames_cmd mergeBase c =
     [JStr (js ''git''), JStr (js ''diff''), JStr (js ''-M''), JStr (js ''--name-status''), JStr (js ''--diff-filter=R''),
      JStr mergeBase, JStr c]"

definition blob_diff_cmd :: "jstring \<Rightarrow> jstring \<Rightarrow> jsval list" where
  "blob_diff_cmd a b = [JStr (js ''git''), JStr (js ''diff''), JStr (js ''-U3''), JStr (js ''--no-prefix''), JStr a, JStr b]"

definition path_diff_cmd :: "jstring \<Rightarrow> jstring \<Rightarrow> jstring \<Rightarrow> jsval list" where
  "path_diff_cmd oursCommit theirsCommit file =
     [JStr (js ''git''), JStr (js ''diff''), JStr (js ''-U3''), JStr (js ''--no-prefix''), JStr (js ''-M''),
      JStr oursCommit, JStr theirsCommit, JStr (js ''--''), JStr file]"

text \<open>The arrow of the messages, U+2192.\<close>

definition arrow :: jstring where
  "arrow = [0x2192]"

text \<open>
  The first half: with a merge base, the renames of either side are listed and the
  candidate is looked up among the old names; the side of ours is asked first.
\<close>

definition rename_check ::
  "'w sys \<Rightarrow> jstring \<Rightarrow> jstring \<Rightarrow> jstring \<Rightarrow> jstring option \<Rightarrow> (FileConflictDetail, 'w) io" where
  "rename_check sys file oursCommit theirsCommit mergeBase =
     (let start = \<lparr>conflict_type = content, message = None, rename = None, diff = None\<rparr> in
      case mergeBase of
        None \<Rightarrow> io_return start
      | Some mb \<Rightarrow>
          if mb = [] then io_return start
          else
            io_bind (runCmd sys (renames_cmd mb oursCommit) []) (\<lambda>ourRenames.
            io_bind (runCmd sys (renames_cmd mb theirsCommit) []) (\<lambda>theirRenames.
              case find_rename (stdout ourRenames) file of
                Some (oldName, newName) \<Rightarrow>
                  io_bind (runCmd sys (blob_diff_cmd (oursCommit @ (js '':'') @ newName)
                                                   (theirsCommit @ (js '':'') @ oldName)) [])
                    (\<lambda>renameContentDiff. io_return
                       \<lparr>conflict_type = rename_modify,
                        message = Some ((js ''Your branch: renamed '') @ oldName @ (js '' '') @ arrow @ (js '' '') @ newName
                                        @ [LF] @ (js ''Their branch: modified '') @ oldName),
                        rename = Some \<lparr>old_path = oldName, new_path = newName, side = Ours\<rparr>,
                        diff = diff_text renameContentDiff\<rparr>)
              | None \<Rightarrow>
                  (case find_rename (stdout theirRenames) file of
                     Some (oldName, newName) \<Rightarrow>
                       io_bind (runCmd sys (blob_diff_cmd (oursCommit @ (js '':'') @ oldName)
                                                        (theirsCommit @ (js '':'') @ newName)) [])
                         (\<lambda>renameContentDiff. io_return
                            \<lparr>conflict_type = modify_rename,
                             message = Some ((js ''Your branch: modified '') @ oldName @ [LF]
                                             @ (js ''Their branch: renamed '') @ oldName @ (js '' '') @ arrow @ (js '' '') @ newName),
                             rename = Some \<lparr>old_path = oldName, new_path = newName, side = Theirs\<rparr>,
                             diff = diff_text renameContentDiff\<rparr>)
                   | None \<Rightarrow> io_return start))))"

text \<open>
  The second half, entered when no rename was recorded: the path-scoped diff from ours
  to theirs, and the two markers looked for in its text.
\<close>

definition classify_diff :: "FileConflictDetail \<Rightarrow> jstring option \<Rightarrow> FileConflictDetail" where
  "classify_diff d df =
     (case df of
        None \<Rightarrow> d\<lparr>diff := None\<rparr>
      | Some t \<Rightarrow>
          if t \<noteq> [] \<and> (js_includes t (js ''deleted file mode'') \<or> js_includes t (js ''new file mode''))
          then (if js_includes t (js ''deleted file mode'')
                then d\<lparr>conflict_type := delete_modify,
                       message := Some (js ''File deleted on one branch, modified on the other''),
                       diff := Some t\<rparr>
                else d\<lparr>conflict_type := modify_delete,
                       message := Some (js ''File modified on one branch, deleted on the other''),
                       diff := Some t\<rparr>)
          else d\<lparr>diff := Some t\<rparr>)"

definition getFileConflictDetail ::
  "'w sys \<Rightarrow> jstring \<Rightarrow> jstring \<Rightarrow> jstring \<Rightarrow> jstring option \<Rightarrow> (FileConflictDetail, 'w) io" where
  "getFileConflictDetail sys file oursCommit theirsCommit mergeBase =
     io_bind (rename_check sys file oursCommit theirsCommit mergeBase) (\<lambda>d.
       if rename d = None
       then io_bind (runCmd sys (path_diff_cmd oursCommit theirsCommit file) [])
              (\<lambda>r. io_return (classify_diff d (diff_text r)))
       else io_return d)"

section \<open>getConflictingFilesFromMergeTree\<close>

definition section_starts :: "jstring list" where
  "section_starts = [(js ''removed in''), (js ''added in''), (js ''changed in''), (js ''merged''), (js ''result'')]"

text \<open>
  The inner loop over the lines after a \<^verbatim>\<open>merged\<close> or \<^verbatim>\<open>result\<close> line: a marker
  line ends it with success, the start of another section ends it without.
\<close>

fun has_markers :: "jstring list \<Rightarrow> bool" where
  "has_markers [] = False"
| "has_markers (l # ls) =
     (if prefix conflict_marker l then True
      else if starts_with_any section_starts l then False
      else has_markers ls)"

text \<open>
  The outer loop, on the lines from index \<open>i\<close> on. The first window is the lines
  \<open>i + 1\<close> to \<open>i + 3\<close>, the second the lines \<open>i + 1\<close> to \<open>i + 19\<close>, both cut at the
  end of the report.
\<close>

fun scan_report :: "jstring list \<Rightarrow> jstring list \<Rightarrow> jstring list" where
  "scan_report [] conflictingFiles = conflictingFiles"
| "scan_report (line # rest) conflictingFiles =
     (let files1 =
            (if starts_with_any structural_headers line
             then foldl (\<lambda>acc l. case match_side_meta l of None \<Rightarrow> acc | Some filename \<Rightarrow> set_add acc filename)
                    conflictingFiles (take 3 rest)
             else conflictingFiles);
          files2 =
            (if prefix (js ''merged'') line \<or> prefix (js ''result'') line
             then (case match_merged line of
                     None \<Rightarrow> files1
                   | Some filename \<Rightarrow>
                       if has_markers (take 19 rest) then set_add files1 filename else files1)
             else files1)
      in scan_report rest files2)"

definition getConflictingFilesFromMergeTree ::
  "'w sys \<Rightarrow> jsval \<Rightarrow> jstring \<Rightarrow> jstring \<Rightarrow> jsval \<Rightarrow> (jstring list, 'w) io" where
  "getConflictingFilesFromMergeTree sys mergeBase oursCommit theirsCommit emptyTree =
     io_bind (runCmd sys (merge_tree_cmd mergeBase oursCommit theirsCommit emptyTree) [])
       (\<lambda>mergeTreeRes. io_return (scan_report (js_split_nl (stdout mergeTreeRes)) []))"

section \<open>main\<close>

record ConflictCheckResult =
  current_ref :: jstring
  other_ref :: jstring
  ours_commit :: jstring
  theirs_commit :: jstring
  merge_base :: "jstring option"
  conflicts :: bool
  conflicted_files :: "jstring list"
  files :: "jstring \<rightharpoonup> FileConflictDetail"

text \<open>\<^verbatim>\<open>mergeBase || undefined\<close> and \<^verbatim>\<open>mergeBase || null\<close>.\<close>

definition or_undefined :: "jstring \<Rightarrow> jstring option" where
  "or_undefined s = (if s = [] then None else Some s)"

text \<open>
  \<^verbatim>\<open>for (const f of fs) result.files[f] = await getFileConflictDetail(f, ...)\<close>
\<close>

fun fill_details ::
  "'w sys \<Rightarrow> jstring \<Rightarrow> jstring \<Rightarrow> jstring option \<Rightarrow> jstring list \<Rightarrow> ConflictCheckResult
   \<Rightarrow> (ConflictCheckResult, 'w) io" where
  "fill_details sys oursCommit theirsCommit mb [] result = io_return result"
| "fill_details sys oursCommit theirsCommit mb (f # fs) result =
     io_bind (getFileConflictDetail sys f oursCommit theirsCommit mb)
       (\<lambda>d. fill_details sys oursCommit theirsCommit mb fs (result\<lparr>files := (files result)(f \<mapsto> d)\<rparr>))"

text \<open>
  The body of the \<^verbatim>\<open>try\<close> block after \<^verbatim>\<open>tempIndex.create()\<close>. It yields the exit
  code when the block returns, \<open>None\<close> when control falls out of it, and the result
  object as it then stands.
\<close>

definition primary_strategy ::
  "'w sys \<Rightarrow> bool \<Rightarrow> jstring \<Rightarrow> jstring \<Rightarrow> jstring \<Rightarrow> jstring \<Rightarrow> jstring \<Rightarrow> jstring \<Rightarrow> TempIndex
   \<Rightarrow> ConflictCheckResult \<Rightarrow> (int option \<times> ConflictCheckResult, 'w) io" where
  "primary_strategy sys printDiffs baseTree oursTree theirsTree oursCommit theirsCommit mergeBase
     tempIndex result =
     io_bind (checkConflictsWithReadTree sys baseTree oursTree theirsTree tempIndex) (\<lambda>unmergedFiles.
       if 0 < length unmergedFiles
       then (let result1 = result\<lparr>conflicts := True, conflicted_files := unmergedFiles\<rparr> in
             io_bind (if printDiffs
                      then fill_details sys oursCommit theirsCommit (or_undefined mergeBase)
                             unmergedFiles result1
                      else io_return result1)
               (\<lambda>result2. io_return (Some 1, result2)))
       else io_return (None, result))"

text \<open>
  \<^verbatim>\<open>try { await tempIndex.create(); ... } finally { await tempIndex.cleanup(); }\<close>:
  the finaliser sees the object as the block left it, without a path when
  \<^verbatim>\<open>create\<close> threw and with the path \<^verbatim>\<open>create\<close> stored otherwise.
\<close>

definition guarded_primary ::
  "'w sys \<Rightarrow> bool \<Rightarrow> jstring \<Rightarrow> jstring \<Rightarrow> jstring \<Rightarrow> jstring \<Rightarrow> jstring \<Rightarrow> jstring
   \<Rightarrow> ConflictCheckResult \<Rightarrow> (int option \<times> ConflictCheckResult, 'w) io" where
  "guarded_primary sys printDiffs baseTree oursTree theirsTree oursCommit theirsCommit mergeBase result =
     (\<lambda>s. case create sys new_TempIndex s of
        (Inl e, s1) \<Rightarrow> io_finally (io_throw e) (cleanup sys new_TempIndex) s1
      | (Inr (p, tempIndex), s1) \<Rightarrow>
          io_finally
            (primary_strategy sys printDiffs baseTree oursTree theirsTree oursCommit theirsCommit
               mergeBase tempIndex result)
            (cleanup sys tempIndex) s1)"

text \<open>The code after the \<^verbatim>\<open>try\<close> statement: the fallback.\<close>

definition fallback_strategy ::
  "'w sys \<Rightarrow> bool \<Rightarrow> jstring \<Rightarrow> jstring \<Rightarrow> jstring \<Rightarrow> jsval \<Rightarrow> ConflictCheckResult
   \<Rightarrow> (int \<times> ConflictCheckResult, 'w) io" where
  "fallback_strategy sys printDiffs oursCommit theirsCommit mergeBase emptyTree result =
     io_bind (checkConflictsWithMergeTree sys (js_or (JStr mergeBase) emptyTree) oursCommit theirsCommit
                emptyTree) (\<lambda>hasConflicts.
       if hasConflicts
       then io_bind (getConflictingFilesFromMergeTree sys (js_or (JStr mergeBase) emptyTree) oursCommit
                       theirsCommit emptyTree) (\<lambda>conflictingFiles.
              let result1 = result\<lparr>conflicts := True, conflicted_files := conflictingFiles\<rparr> in
              io_bind (if printDiffs
                       then fill_details sys oursCommit theirsCommit (or_undefined mergeBase)
                              conflictingFiles result1
                       else io_return result1)
                (\<lambda>result2. io_return (1, result2)))
       else io_return (0, result))"

text \<open>
  \<^verbatim>\<open>main\<close> from the resolution of the two commits on (line 158). What precedes it
  parses the arguments and finds the two ref names, which are parameters here, as is
  the flag \<^verbatim>\<open>--diff\<close>. Console output is left out: the two output modes print
  different text and return the same code. The value is the exit code together with
  the result object, which \<^verbatim>\<open>--json\<close> prints.

  Line 175 reads \<^verbatim>\<open>const emptyTree = getEmptyTreeHash();\<close> with no
  \<^verbatim>\<open>await\<close>, so \<^verbatim>\<open>emptyTree\<close> is the promise.
\<close>

definition main :: "'w sys \<Rightarrow> jstring \<Rightarrow> jstring \<Rightarrow> bool \<Rightarrow> (int \<times> ConflictCheckResult, 'w) io" where
  "main sys currentRef otherRef printDiffs =
     io_bind (resolveCommit sys (js ''HEAD'')) (\<lambda>oursResult.
     io_bind (io_catch (resolveCommit sys otherRef)
                (\<lambda>_. io_throw (GitError ((js ''Couldn'') @ apostrophe @ (js ''t resolve other branch/ref '')
                         @ apostrophe @ otherRef @ apostrophe
                         @ (js '' to a commit. Ensure it exists locally or as a remote-tracking ref.'')) 2)))
       (\<lambda>theirsResult.
     io_bind (js_async_call (getEmptyTreeHash sys)) (\<lambda>emptyTree.
     io_bind (runCmd sys [JStr (js ''git''), JStr (js ''merge-base''), JStr (commit oursResult),
                          JStr (commit theirsResult)] []) (\<lambda>mbRes.
     let oursCommit = commit oursResult;
         theirsCommit = commit theirsResult;
         mergeBase = (if ok_with_output mbRes then stdout mbRes else [])
     in
     io_bind (revToTree sys mergeBase emptyTree) (\<lambda>baseTree.
     io_bind (revToTree sys oursCommit emptyTree) (\<lambda>oursTree.
     io_bind (revToTree sys theirsCommit emptyTree) (\<lambda>theirsTree.
     let result = \<lparr>current_ref = currentRef, other_ref = resolvedRef theirsResult,
                   ours_commit = oursCommit, theirs_commit = theirsCommit,
                   merge_base = or_undefined mergeBase, conflicts = False,
                   conflicted_files = [], files = Map.empty\<rparr>
     in
     io_bind (guarded_primary sys printDiffs baseTree oursTree theirsTree oursCommit theirsCommit
                mergeBase result) (\<lambda>(returned, result1).
       (case returned of
          Some exit_code \<Rightarrow> io_return (exit_code, result1)
        | None \<Rightarrow> fallback_strategy sys printDiffs oursCommit theirsCommit mergeBase emptyTree
                    result1)))))))))"

section \<open>Notions the statements are written in\<close>

text \<open>
  The last white-space-delimited field of a line, said without \<^verbatim>\<open>split\<close>: the
  longest suffix free of white space.
\<close>

definition last_field :: "jstring \<Rightarrow> jstring" where
  "last_field l = rev (takeWhile (\<lambda>c. \<not> is_space c) (rev l))"

text \<open>
  \<^verbatim>\<open>git ls-files -u --stage\<close> prints one line per stage of an unmerged path:
  mode, object id and stage separated by spaces, then a TAB, then the path. The path
  of a line is what follows its first TAB.
\<close>

definition line_path :: "jstring \<Rightarrow> jstring" where
  "line_path l = tl (dropWhile (\<lambda>c. c \<noteq> TAB) l)"

definition listing_paths :: "jstring \<Rightarrow> jstring list" where
  "listing_paths s = map line_path (filter_Boolean (js_split_nl s))"

text \<open>The listing of the unit test: one path at three stages, another at one.\<close>

definition listing_dup :: jstring where
  "listing_dup =
     (js ''100644 abc123 1'') @ [TAB] @ (js ''file.txt'') @ [LF] @
     (js ''100644 def456 2'') @ [TAB] @ (js ''file.txt'') @ [LF] @
     (js ''100644 ghi789 3'') @ [TAB] @ (js ''file.txt'') @ [LF] @
     (js ''100644 jkl012 1'') @ [TAB] @ (js ''other.txt'')"

text \<open>A path with a space in it, unmerged at two stages.\<close>

definition listing_spaced :: jstring where
  "listing_spaced =
     (js ''100644 abc123 2'') @ [TAB] @ (js ''my file.txt'') @ [LF] @
     (js ''100644 def456 3'') @ [TAB] @ (js ''my file.txt'')"

text \<open>
  A scripted system, for running the model on a concrete repository: a table from
  command lines to what they do, and a default for the command lines it does not list.
  The world is the list of the temporary files that exist. \<^verbatim>\<open>makeTempFile\<close> makes
  \<^verbatim>\<open>/tmp/index\<close>; \<^verbatim>\<open>remove\<close> fails on a file that does not exist.
\<close>

definition git_failure :: CmdResult where
  "git_failure = \<lparr>code = 128, stdout = [], stderr = (js ''fatal: bad revision'')\<rparr>"

definition success :: "jstring \<Rightarrow> CmdResult" where
  "success out = \<lparr>code = 0, stdout = out, stderr = []\<rparr>"

definition scripted_default ::
  "(exn + CmdResult) \<Rightarrow> (jsval list \<times> (exn + CmdResult)) list \<Rightarrow> jstring list sys" where
  "scripted_default d tbl =
     \<lparr>sys_exec = (\<lambda>cmd env w. ((case map_of tbl cmd of None \<Rightarrow> d | Some r \<Rightarrow> r), w)),
      sys_makeTempFile = (\<lambda>w. (Inr (js ''/tmp/index''), (js ''/tmp/index'') # w)),
      sys_remove = (\<lambda>p w. if p \<in> set w then (Inr (), removeAll p w)
                           else (Inl (Thrown (js ''NotFound'')), w))\<rparr>"

text \<open>Git answers every command line that is not listed with a failure.\<close>

definition scripted :: "(jsval list \<times> (exn + CmdResult)) list \<Rightarrow> jstring list sys" where
  "scripted tbl = scripted_default (Inr git_failure) tbl"

text \<open>No subprocess can be spawned at all.\<close>

definition no_spawn :: "jstring list sys" where
  "no_spawn = scripted_default (Inl (Thrown (js ''spawn failed''))) []"

text \<open>
  Concrete repositories for the scripted system. Two branches with a common ancestor
  whose merge leaves two paths unmerged; two histories without a common ancestor that
  touch different files; a ref that only exists under a remote; and a system on which
  \<^verbatim>\<open>read-tree\<close> cannot be spawned.
\<close>

definition ours_id :: jstring where "ours_id = (js ''1111111111111111111111111111111111111111'')"
definition theirs_id :: jstring where "theirs_id = (js ''2222222222222222222222222222222222222222'')"
definition base_id :: jstring where "base_id = (js ''0000000000000000000000000000000000000000'')"
definition ours_tree :: jstring where "ours_tree = (js ''aaaaaaaaaaaaaaaaaaaaaaaaaaaaaaaaaaaaaaaa'')"
definition theirs_tree :: jstring where "theirs_tree = (js ''bbbbbbbbbbbbbbbbbbbbbbbbbbbbbbbbbbbbbbbb'')"
definition base_tree :: jstring where "base_tree = (js ''cccccccccccccccccccccccccccccccccccccccc'')"

definition tmp_index :: TempIndex where
  "tmp_index = \<lparr>path = Some (js ''/tmp/index'')\<rparr>"

definition conflicting :: "(jsval list \<times> (exn + CmdResult)) list" where
  "conflicting =
    [(verify_cmd (js ''HEAD''), Inr (success ours_id)),
     (verify_cmd (js ''other''), Inr (success theirs_id)),
     ([JStr (js ''git''), JStr (js ''hash-object''), JStr (js ''-t''), JStr (js ''tree''), JStr (js ''/dev/null'')],
      Inr (success well_known_empty_tree)),
     ([JStr (js ''git''), JStr (js ''merge-base''), JStr ours_id, JStr theirs_id], Inr (success base_id)),
     ([JStr (js ''git''), JStr (js ''rev-parse''), JStr (base_id @ (js ''^{tree}''))], Inr (success base_tree)),
     ([JStr (js ''git''), JStr (js ''rev-parse''), JStr (ours_id @ (js ''^{tree}''))], Inr (success ours_tree)),
     ([JStr (js ''git''), JStr (js ''rev-parse''), JStr (theirs_id @ (js ''^{tree}''))], Inr (success theirs_tree)),
     (JStr (js ''git'') # read_tree_cmd base_tree ours_tree theirs_tree, Inr (success [])),
     (JStr (js ''git'') # ls_files_cmd, Inr (success listing_dup))]"

definition orphans :: "(jsval list \<times> (exn + CmdResult)) list" where
  "orphans =
    [(verify_cmd (js ''HEAD''), Inr (success ours_id)),
     (verify_cmd (js ''other''), Inr (success theirs_id)),
     ([JStr (js ''git''), JStr (js ''hash-object''), JStr (js ''-t''), JStr (js ''tree''), JStr (js ''/dev/null'')],
      Inr (success well_known_empty_tree)),
     ([JStr (js ''git''), JStr (js ''merge-base''), JStr ours_id, JStr theirs_id],
      Inr \<lparr>code = 1, stdout = [], stderr = []\<rparr>),
     ([JStr (js ''git''), JStr (js ''rev-parse''), JStr (ours_id @ (js ''^{tree}''))], Inr (success ours_tree)),
     ([JStr (js ''git''), JStr (js ''rev-parse''), JStr (theirs_id @ (js ''^{tree}''))], Inr (success theirs_tree)),
     (JStr (js ''git'') # read_tree_cmd well_known_empty_tree ours_tree theirs_tree, Inr (success [])),
     (JStr (js ''git'') # ls_files_cmd, Inr (success []))]"

definition remote_only :: "(jsval list \<times> (exn + CmdResult)) list" where
  "remote_only =
    [([JStr (js ''git''), JStr (js ''remote'')], Inr (success ((js ''upstream'') @ [LF] @ (js ''origin'')))),
     (verify_cmd (js ''origin/develop''), Inr (success theirs_id))]"

definition read_tree_raises :: "(jsval list \<times> (exn + CmdResult)) list" where
  "read_tree_raises =
    [(JStr (js ''git'') # read_tree_cmd base_tree ours_tree theirs_tree, Inl (Thrown (js ''spawn failed''))),
     (JStr (js ''git'') # ls_files_cmd, Inr (success listing_dup))]"

text \<open>The text has a line, between line feeds, that begins with a structural header.\<close>

definition has_header_line :: "jstring \<Rightarrow> bool" where
  "has_header_line s = list_ex (starts_with_any structural_headers) (js_split_lf s)"

text \<open>
  What \<^verbatim>\<open>git merge-tree\<close> reports for a file removed by ours and changed by theirs:
  a header line and the two sides, no conflict marker.
\<close>

definition removed_in_local_report :: jstring where
  "removed_in_local_report =
     (js ''removed in local'') @ [LF] @
     (js ''  base   100644 257cc5642cb1a054f08cc83f2d943e56fd3ebe99 file.txt'') @ [LF] @
     (js ''  their  100644 2b2f2e1b9261c50c3816610eb3eb140fabf1745a file.txt'') @ [LF]"

definition delete_modify_repo :: "(jsval list \<times> (exn + CmdResult)) list" where
  "delete_modify_repo =
     [([JStr (js ''git''), JStr (js ''merge-tree''), JStr base_id, JStr ours_id, JStr theirs_id],
       Inr (success removed_in_local_report))]"

text \<open>
  A repository on which the primary strategy fails to run and the fallback finds a
  conflict. \<^verbatim>\<open>Deno.makeTempFile\<close> makes an empty file, which git refuses to read as
  an index: \<^verbatim>\<open>read-tree\<close> exits with 128, and so does \<^verbatim>\<open>ls-files\<close>, printing
  nothing. \<^verbatim>\<open>merge-tree\<close> uses no index.
\<close>

definition read_tree_fails :: "(jsval list \<times> (exn + CmdResult)) list" where
  "read_tree_fails =
    [(verify_cmd (js ''HEAD''), Inr (success ours_id)),
     (verify_cmd (js ''other''), Inr (success theirs_id)),
     ([JStr (js ''git''), JStr (js ''hash-object''), JStr (js ''-t''), JStr (js ''tree''), JStr (js ''/dev/null'')],
      Inr (success well_known_empty_tree)),
     ([JStr (js ''git''), JStr (js ''merge-base''), JStr ours_id, JStr theirs_id], Inr (success base_id)),
     ([JStr (js ''git''), JStr (js ''rev-parse''), JStr (base_id @ (js ''^{tree}''))], Inr (success base_tree)),
     ([JStr (js ''git''), JStr (js ''rev-parse''), JStr (ours_id @ (js ''^{tree}''))], Inr (success ours_tree)),
     ([JStr (js ''git''), JStr (js ''rev-parse''), JStr (theirs_id @ (js ''^{tree}''))], Inr (success theirs_tree)),
     (JStr (js ''git'') # read_tree_cmd base_tree ours_tree theirs_tree,
      Inr \<lparr>code = 128, stdout = [], stderr = (js ''fatal: /tmp/index: index file smaller than expected'')\<rparr>),
     (JStr (js ''git'') # ls_files_cmd,
      Inr \<lparr>code = 128, stdout = [], stderr = (js ''fatal: /tmp/index: index file smaller than expected'')\<rparr>),
     ([JStr (js ''git''), JStr (js ''merge-tree''), JStr base_id, JStr ours_id, JStr theirs_id],
      Inr (success removed_in_local_report))]"

text \<open>
  What \<^verbatim>\<open>git diff <ours> <theirs> -- f.txt\<close> prints. A file that theirs has and
  ours lacks (ours deleted it, theirs changed it) is a new file on the way from ours to
  theirs; a file that ours has and theirs lacks (theirs deleted it) is a deleted file.
  Neither side renamed anything.
\<close>

definition new_file_diff :: jstring where
  "new_file_diff =
     (js ''diff --git f.txt f.txt'') @ [LF] @
     (js ''new file mode 100644'') @ [LF] @
     (js ''index 0000000..2b2f2e1'') @ [LF] @
     (js ''--- /dev/null'') @ [LF] @
     (js ''+++ f.txt'') @ [LF] @
     (js ''@@ -0,0 +1 @@'') @ [LF] @
     (js ''+modified content'') @ [LF]"

definition deleted_file_diff :: jstring where
  "deleted_file_diff =
     (js ''diff --git f.txt f.txt'') @ [LF] @
     (js ''deleted file mode 100644'') @ [LF] @
     (js ''index 2b2f2e1..0000000'') @ [LF] @
     (js ''--- f.txt'') @ [LF] @
     (js ''+++ /dev/null'') @ [LF] @
     (js ''@@ -1 +0,0 @@'') @ [LF] @
     (js ''-modified content'') @ [LF]"

definition ours_deleted :: "(jsval list \<times> (exn + CmdResult)) list" where
  "ours_deleted =
     [(renames_cmd base_id ours_id, Inr (success [])),
      (renames_cmd base_id theirs_id, Inr (success [])),
      (path_diff_cmd ours_id theirs_id (js ''f.txt''), Inr (success new_file_diff))]"

definition theirs_deleted :: "(jsval list \<times> (exn + CmdResult)) list" where
  "theirs_deleted =
     [(renames_cmd base_id ours_id, Inr (success [])),
      (renames_cmd base_id theirs_id, Inr (success [])),
      (path_diff_cmd ours_id theirs_id (js ''f.txt''), Inr (success deleted_file_diff))]"

text \<open>
  Both sides renamed \<^verbatim>\<open>a.txt\<close>, ours to \<^verbatim>\<open>b.txt\<close> and theirs to \<^verbatim>\<open>c.txt\<close>.
  The commit of theirs has no \<^verbatim>\<open>a.txt\<close> any more, and that is what git says when it
  is asked for it.
\<close>

definition missing_path_error :: jstring where
  "missing_path_error =
     (js ''fatal: path '') @ apostrophe @ (js ''a.txt'') @ apostrophe @ (js '' does not exist in '')
     @ apostrophe @ theirs_id @ apostrophe"

definition both_renamed :: "(jsval list \<times> (exn + CmdResult)) list" where
  "both_renamed =
     [(renames_cmd base_id ours_id, Inr (success ((js ''R100'') @ [TAB] @ (js ''a.txt'') @ [TAB] @ (js ''b.txt'') @ [LF]))),
      (renames_cmd base_id theirs_id, Inr (success ((js ''R090'') @ [TAB] @ (js ''a.txt'') @ [TAB] @ (js ''c.txt'') @ [LF]))),
      (blob_diff_cmd (ours_id @ (js '':b.txt'')) (theirs_id @ (js '':a.txt'')),
       Inr \<lparr>code = 128, stdout = [], stderr = missing_path_error @ [LF]\<rparr>)]"

text \<open>The command lines of a trace, in order.\<close>

definition commands :: "event list \<Rightarrow> jsval list list" where
  "commands tr = List.map_filter (\<lambda>e. case e of Ran cmd env r \<Rightarrow> Some cmd | _ \<Rightarrow> None) tr"

text \<open>The detail getFileConflictDetail starts from.\<close>

definition no_detail :: FileConflictDetail where
  "no_detail = \<lparr>conflict_type = content, message = None, rename = None, diff = None\<rparr>"

text \<open>Events of the trace: a run of \<^verbatim>\<open>git merge-tree\<close>, and what a run of
  \<^verbatim>\<open>git ls-files -u --stage\<close> reported, as parseUnmergedFiles reads it.\<close>

definition is_merge_tree :: "event \<Rightarrow> bool" where
  "is_merge_tree e =
     (case e of Ran cmd env r \<Rightarrow> take 2 cmd = [JStr (js ''git''), JStr (js ''merge-tree'')] | _ \<Rightarrow> False)"

definition ls_report :: "event \<Rightarrow> jstring list option" where
  "ls_report e =
     (case e of
        Ran cmd env (Inr r) \<Rightarrow>
          if cmd = JStr (js ''git'') # ls_files_cmd then Some (parseUnmergedFiles (stdout r)) else None
      | _ \<Rightarrow> None)"

definition is_ls_files :: "event \<Rightarrow> bool" where
  "is_ls_files e = (case e of Ran cmd env r \<Rightarrow> cmd = JStr (js ''git'') # ls_files_cmd | _ \<Rightarrow> False)"

definition quiet :: "event \<Rightarrow> bool" where
  "quiet e = (\<not> is_merge_tree e \<and> \<not> is_ls_files e)"

text \<open>
  What a computation adds to the trace, whatever the state it starts in: it only
  appends, and \<open>Q\<close> holds of its outcome and the events appended.
\<close>

definition spec :: "('a, 'w) io \<Rightarrow> ((exn + 'a) \<Rightarrow> event list \<Rightarrow> bool) \<Rightarrow> bool" where
  "spec m Q = (\<forall>s. \<exists>evs. snd (snd (m s)) = snd s @ evs \<and> Q (fst (m s)) evs)"

definition emits :: "(event \<Rightarrow> bool) \<Rightarrow> ('a, 'w) io \<Rightarrow> bool" where
  "emits P m = spec m (\<lambda>r evs. list_all P evs)"

text \<open>The events hold a report \<open>fs\<close> of \<^verbatim>\<open>ls-files\<close> and no other report.\<close>

definition reported :: "jstring list \<Rightarrow> event list \<Rightarrow> bool" where
  "reported fs evs =
     (list_ex (\<lambda>e. ls_report e = Some fs) evs \<and>
      list_all (\<lambda>e. ls_report e = None \<or> ls_report e = Some fs) evs)"

definition primary_shape :: "(exn + int option \<times> ConflictCheckResult) \<Rightarrow> event list \<Rightarrow> bool" where
  "primary_shape r evs =
     (list_all (\<lambda>e. \<not> is_merge_tree e) evs \<and>
      (\<forall>res. r = Inr (None, res) \<longrightarrow> reported [] evs) \<and>
      (\<forall>c res. r = Inr (Some c, res) \<longrightarrow> c = 1 \<and> conflicts res))"

definition pipeline_shape :: "(exn + int \<times> ConflictCheckResult) \<Rightarrow> event list \<Rightarrow> bool" where
  "pipeline_shape r tr =
     ((list_all (\<lambda>e. \<not> is_merge_tree e) tr \<and> (\<forall>c res. r = Inr (c, res) \<longrightarrow> c = 1 \<and> conflicts res)) \<or>
      (\<exists>A B. tr = A @ B \<and> list_all (\<lambda>e. \<not> is_merge_tree e) A \<and>
             list_ex (\<lambda>e. ls_report e = Some []) A \<and>
             list_all (\<lambda>e. ls_report e = None \<or> ls_report e = Some []) tr))"

section \<open>Literals\<close>

text \<open>Distinct literals are distinct strings, and only the empty literal is empty.\<close>

lemma js_eq_iff [simp]: "js a = js b \<longleftrightarrow> a = b"
  unfolding js_def by (simp add: inj_map_eq_map inj_on_def)

lemma js_eq_Nil [simp]: "js a = [] \<longleftrightarrow> a = []"
  by (simp add: js_def)

lemma Nil_eq_js [simp]: "[] = js a \<longleftrightarrow> a = []"
  by (auto simp: js_def)

section \<open>Fields and sets\<close>

lemma js_split_ws_ne: "js_split_ws s \<noteq> []"
  by (subst js_split_ws.simps) (simp split: list.splits)

lemma last_field_nospace:
  assumes "\<forall>c\<in>set s. \<not> is_space c"
  shows "last_field s = s"
proof -
  have "takeWhile (\<lambda>c. \<not> is_space c) (rev s) = rev s" using assms by simp
  then show ?thesis unfolding last_field_def by (simp only: rev_rev_ident)
qed

lemma last_field_append_space:
  assumes "is_space c"
  shows "last_field (a @ c # b) = last_field b"
proof (cases "\<forall>x\<in>set b. \<not> is_space x")
  case True
  then show ?thesis using assms by (simp add: last_field_def takeWhile_tail)
next
  case False
  then show ?thesis by (auto simp: last_field_def)
qed

lemma last_field_dropWhile: "last_field (dropWhile is_space s) = last_field s"
proof (induction s)
  case Nil
  then show ?case by simp
next
  case (Cons c s)
  show ?case
  proof (cases "is_space c")
    case True
    then have "last_field (c # s) = last_field s"
      using last_field_append_space [of c "[]" s] by simp
    with True Cons show ?thesis by simp
  next
    case False
    then show ?thesis by simp
  qed
qed

lemma last_field_no_space: "\<forall>c\<in>set (last_field l). \<not> is_space c"
  unfolding last_field_def using set_takeWhileD [of _ "\<lambda>c. \<not> is_space c" "rev l"] by auto

text \<open>The field \<^verbatim>\<open>split(/\s+/)\<close> returns last is the last field.\<close>

lemma last_js_split_ws: "last (js_split_ws s) = last_field s"
proof (induction s rule: js_split_ws.induct)
  case (1 s)
  show ?case
  proof (cases "dropWhile (\<lambda>c. \<not> is_space c) s")
    case Nil
    then have "\<forall>c\<in>set s. \<not> is_space c" by simp
    then have "last_field s = s" by (rule last_field_nospace)
    moreover have "js_split_ws s = [s]"
      by (subst js_split_ws.simps) (simp only: Nil list.case)
    ultimately show ?thesis by simp
  next
    case (Cons x rest)
    then have sp: "is_space x" using hd_dropWhile [of "\<lambda>c. \<not> is_space c" s] by simp
    have s: "s = takeWhile (\<lambda>c. \<not> is_space c) s @ x # rest"
      using Cons takeWhile_dropWhile_id [of "\<lambda>c. \<not> is_space c" s] by simp
    have "js_split_ws s = takeWhile (\<lambda>c. \<not> is_space c) s # js_split_ws (dropWhile is_space rest)"
      by (subst js_split_ws.simps) (simp only: Cons list.case)
    then have "last (js_split_ws s) = last (js_split_ws (dropWhile is_space rest))"
      by (simp add: js_split_ws_ne)
    also have "\<dots> = last_field (dropWhile is_space rest)" using "1.IH" [OF Cons] .
    also have "\<dots> = last_field rest" by (rule last_field_dropWhile)
    also have "\<dots> = last_field s"
      using last_field_append_space [OF sp, of "takeWhile (\<lambda>c. \<not> is_space c) s" rest] s by simp
    finally show ?thesis .
  qed
qed

lemma array_from_set_snoc: "array_from_set (xs @ [x]) = set_add (array_from_set xs) x"
  by (simp add: array_from_set_def)

lemma set_array_from_set: "set (array_from_set xs) = set xs"
proof (induction xs rule: rev_induct)
  case Nil
  show ?case by (simp add: array_from_set_def)
next
  case (snoc x xs)
  then show ?case by (auto simp: array_from_set_snoc set_add_def)
qed

lemma distinct_array_from_set: "distinct (array_from_set xs)"
proof (induction xs rule: rev_induct)
  case Nil
  show ?case by (simp add: array_from_set_def)
next
  case (snoc x xs)
  then show ?case by (simp add: array_from_set_snoc set_add_def)
qed

lemma count_list_distinct: "distinct xs \<Longrightarrow> p \<in> set xs \<Longrightarrow> count_list xs p = 1"
  by (induction xs) auto

lemma count_array_from_set: "p \<in> set xs \<Longrightarrow> count_list (array_from_set xs) p = 1"
  by (rule count_list_distinct) (simp_all add: distinct_array_from_set set_array_from_set)

text \<open>
  Order of first occurrence: what stands before \<open>p\<close> in the array is what stands before
  the first \<open>p\<close> in the input.
\<close>

lemma before_array_from_set:
  "p \<in> set xs \<Longrightarrow>
   set (takeWhile (\<lambda>q. q \<noteq> p) (array_from_set xs)) = set (takeWhile (\<lambda>q. q \<noteq> p) xs)"
proof (induction xs rule: rev_induct)
  case Nil
  then show ?case by simp
next
  case (snoc x xs)
  show ?case
  proof (cases "p \<in> set xs")
    case True
    then have pa: "p \<in> set (array_from_set xs)" by (simp add: set_array_from_set)
    have "takeWhile (\<lambda>q. q \<noteq> p) (array_from_set (xs @ [x])) = takeWhile (\<lambda>q. q \<noteq> p) (array_from_set xs)"
      using pa by (auto simp: array_from_set_snoc set_add_def)
    moreover have "takeWhile (\<lambda>q. q \<noteq> p) (xs @ [x]) = takeWhile (\<lambda>q. q \<noteq> p) xs"
      using True by auto
    ultimately show ?thesis using snoc.IH [OF True] by simp
  next
    case False
    with snoc.prems have px: "p = x" by simp
    have na: "x \<notin> set (array_from_set xs)" using False px by (simp add: set_array_from_set)
    have "takeWhile (\<lambda>q. q \<noteq> p) (array_from_set xs @ [x]) = array_from_set xs @ takeWhile (\<lambda>q. q \<noteq> p) [x]"
      using na px by (intro takeWhile_append2) auto
    then have a: "takeWhile (\<lambda>q. q \<noteq> p) (array_from_set (xs @ [x])) = array_from_set xs"
      using na px by (simp add: array_from_set_snoc set_add_def)
    have "takeWhile (\<lambda>q. q \<noteq> p) (xs @ [x]) = xs @ takeWhile (\<lambda>q. q \<noteq> p) [x]"
      using False px by (intro takeWhile_append2) auto
    then have b: "takeWhile (\<lambda>q. q \<noteq> p) (xs @ [x]) = xs" using px by simp
    show ?thesis by (simp only: a b set_array_from_set)
  qed
qed

section \<open>What parseUnmergedFiles returns\<close>

lemma parseUnmergedFiles_fields:
  "parseUnmergedFiles s = array_from_set (map last_field (filter_Boolean (js_split_nl s)))"
proof (cases "s = []")
  case True
  have "js_split_nl [] = [[]]" by (subst js_split_nl.simps) simp
  then show ?thesis using True
    by (simp add: parseUnmergedFiles_def filter_Boolean_def array_from_set_def)
next
  case False
  then show ?thesis by (simp add: parseUnmergedFiles_def last_js_split_ws)
qed

lemma set_parseUnmergedFiles:
  "set (parseUnmergedFiles s) = last_field ` {l \<in> set (js_split_nl s). l \<noteq> []}"
  by (auto simp: parseUnmergedFiles_fields set_array_from_set filter_Boolean_def)

lemma last_field_line_path:
  assumes "line_path l \<noteq> []" and "\<forall>c\<in>set (line_path l). \<not> is_space c"
  shows "last_field l = line_path l"
proof -
  from assms(1) obtain x rest where d: "dropWhile (\<lambda>c. c \<noteq> TAB) l = x # rest"
    by (cases "dropWhile (\<lambda>c. c \<noteq> TAB) l") (simp_all add: line_path_def)
  then have x: "x = TAB" using hd_dropWhile [of "\<lambda>c. c \<noteq> TAB" l] by simp
  have lp: "line_path l = rest" using d by (simp add: line_path_def)
  have l: "l = takeWhile (\<lambda>c. c \<noteq> TAB) l @ TAB # rest"
    using d x takeWhile_dropWhile_id [of "\<lambda>c. c \<noteq> TAB" l] by simp
  have "is_space TAB" by (simp add: is_space_def TAB_def)
  then have "last_field (takeWhile (\<lambda>c. c \<noteq> TAB) l @ TAB # rest) = last_field rest"
    by (rule last_field_append_space)
  with l have "last_field l = last_field rest" by simp
  also have "\<dots> = rest" using assms(2) lp by (simp add: last_field_nospace)
  finally show ?thesis using lp by simp
qed

lemma last_field_spaced_path:
  assumes "line_path l = a @ c # b" and "is_space c" and "\<forall>x\<in>set b. \<not> is_space x"
  shows "last_field l = b"
proof -
  from assms(1) obtain x rest where d: "dropWhile (\<lambda>c. c \<noteq> TAB) l = x # rest"
    by (cases "dropWhile (\<lambda>c. c \<noteq> TAB) l") (simp_all add: line_path_def)
  have lp: "rest = a @ c # b" using d assms(1) by (simp add: line_path_def)
  have "l = takeWhile (\<lambda>c. c \<noteq> TAB) l @ x # rest"
    using d takeWhile_dropWhile_id [of "\<lambda>c. c \<noteq> TAB" l] by simp
  then have "l = (takeWhile (\<lambda>c. c \<noteq> TAB) l @ x # a) @ c # b" using lp by simp
  then have "last_field l = last_field ((takeWhile (\<lambda>c. c \<noteq> TAB) l @ x # a) @ c # b)" by simp
  also have "\<dots> = last_field b" using assms(2) by (rule last_field_append_space)
  also have "\<dots> = b" using assms(3) by (rule last_field_nospace)
  finally show ?thesis .
qed

lemma parseUnmergedFiles_paths:
  assumes "\<forall>p\<in>set (listing_paths s). p \<noteq> [] \<and> (\<forall>c\<in>set p. \<not> is_space c)"
  shows "parseUnmergedFiles s = array_from_set (listing_paths s)"
proof -
  have "map last_field (filter_Boolean (js_split_nl s)) = map line_path (filter_Boolean (js_split_nl s))"
  proof (rule map_cong [OF refl])
    fix l assume "l \<in> set (filter_Boolean (js_split_nl s))"
    then have "line_path l \<in> set (listing_paths s)" by (simp add: listing_paths_def)
    with assms have "line_path l \<noteq> []" and "\<forall>c\<in>set (line_path l). \<not> is_space c" by auto
    then show "last_field l = line_path l" by (rule last_field_line_path)
  qed
  then show ?thesis by (simp only: parseUnmergedFiles_fields listing_paths_def)
qed

lemma listing_dup_paths:
  "listing_paths listing_dup = [(js ''file.txt''), (js ''file.txt''), (js ''file.txt''), (js ''other.txt'')]"
  by code_simp

lemma listing_dup_parse: "parseUnmergedFiles listing_dup = [(js ''file.txt''), (js ''other.txt'')]"
  by code_simp

lemma listing_spaced_lines:
  "js_split_nl listing_spaced =
     [(js ''100644 abc123 2'') @ [TAB] @ (js ''my file.txt''), (js ''100644 def456 3'') @ [TAB] @ (js ''my file.txt'')]"
  by code_simp

text \<open>
  C9. parseUnmergedFiles records, for every non-empty line, its last
  white-space-delimited field and nothing else: the result is the set-array of those
  fields, it holds the last field of every non-empty line, and no path in it contains
  white space. So for a line whose path has white space inside, the result holds the
  part of the path after its last white space, and not the path.
\<close>

theorem parseUnmergedFiles_last_field:
  "parseUnmergedFiles s = array_from_set (map last_field (filter_Boolean (js_split_nl s))) \<and>
   (\<forall>l\<in>set (js_split_nl s). l \<noteq> [] \<longrightarrow> last_field l \<in> set (parseUnmergedFiles s)) \<and>
   (\<forall>p\<in>set (parseUnmergedFiles s). \<forall>c\<in>set p. \<not> is_space c) \<and>
   (\<forall>l\<in>set (js_split_nl s). \<forall>a c b.
      line_path l = a @ c # b \<and> is_space c \<and> b \<noteq> [] \<and> (\<forall>x\<in>set b. \<not> is_space x) \<longrightarrow>
      b \<in> set (parseUnmergedFiles s) \<and> line_path l \<notin> set (parseUnmergedFiles s))"
proof (intro conjI ballI allI impI)
  show "parseUnmergedFiles s = array_from_set (map last_field (filter_Boolean (js_split_nl s)))"
    by (rule parseUnmergedFiles_fields)
next
  fix l assume "l \<in> set (js_split_nl s)" "l \<noteq> []"
  then show "last_field l \<in> set (parseUnmergedFiles s)" by (auto simp: set_parseUnmergedFiles)
next
  fix p c assume "p \<in> set (parseUnmergedFiles s)" "c \<in> set p"
  then show "\<not> is_space c" using last_field_no_space by (auto simp: set_parseUnmergedFiles)
next
  fix l a c b
  assume l: "l \<in> set (js_split_nl s)"
    and h: "line_path l = a @ c # b \<and> is_space c \<and> b \<noteq> [] \<and> (\<forall>x\<in>set b. \<not> is_space x)"
  then have lf: "last_field l = b" using last_field_spaced_path by blast
  have "l \<noteq> []" using h by (auto simp: line_path_def)
  with l lf show "b \<in> set (parseUnmergedFiles s)" by (force simp: set_parseUnmergedFiles)
  have c: "c \<in> set (line_path l)" "is_space c" using h by simp_all
  show "line_path l \<notin> set (parseUnmergedFiles s)"
  proof
    assume "line_path l \<in> set (parseUnmergedFiles s)"
    then obtain l' where "line_path l = last_field l'" by (auto simp: set_parseUnmergedFiles)
    with c last_field_no_space [of l'] show False by auto
  qed
qed

theorem parseUnmergedFiles_last_field_witness:
  "(js ''file.txt'') \<in> set (parseUnmergedFiles listing_spaced) \<and>
   (js ''my file.txt'') \<notin> set (parseUnmergedFiles listing_spaced)"
proof -
  let ?l = "(js ''100644 abc123 2'') @ [TAB] @ (js ''my file.txt'')"
  have l: "?l \<in> set (js_split_nl listing_spaced)" by (simp add: listing_spaced_lines)
  have h: "line_path ?l = (js ''my'') @ 0x20 # (js ''file.txt'') \<and> is_space 0x20 \<and> (js ''file.txt'') \<noteq> [] \<and>
           (\<forall>x\<in>set (js ''file.txt''). \<not> is_space x)"
    by code_simp
  from parseUnmergedFiles_last_field [of listing_spaced] l h
  have "(js ''file.txt'') \<in> set (parseUnmergedFiles listing_spaced) \<and>
        line_path ?l \<notin> set (parseUnmergedFiles listing_spaced)"
    by blast
  moreover have "line_path ?l = (js ''my file.txt'')" by code_simp
  ultimately show ?thesis by simp
qed

text \<open>
  The white space that splits a path need not be ASCII: where git prints paths as they
  are (\<^verbatim>\<open>core.quotePath\<close> off), a no-break space or an ideographic space in a path
  cuts it as well.
\<close>

lemma parseUnmergedFiles_unicode_space:
  "parseUnmergedFiles ((js ''100644 abc123 2'') @ [TAB] @ (js ''my'') @ [0xA0] @ (js ''file.txt'')) = [(js ''file.txt'')] \<and>
   parseUnmergedFiles ((js ''100644 abc123 2'') @ [TAB] @ (js ''my'') @ [0x3000] @ (js ''file.txt'')) = [(js ''file.txt'')]"
  by code_simp

text \<open>
  What does hold of the paths of a listing: when they are non-empty and free of white
  space, parseUnmergedFiles returns a list without duplicates that holds exactly the
  paths of the listing, each of them once however many lines (stages) it occurs on, in
  the order of their first occurrence: the paths before \<open>p\<close> in the result are those
  before the first line of \<open>p\<close> in the listing.
\<close>

lemma parseUnmergedFiles_unspaced_paths:
  assumes "\<forall>p\<in>set (listing_paths s). p \<noteq> [] \<and> (\<forall>c\<in>set p. \<not> is_space c)"
  shows "distinct (parseUnmergedFiles s) \<and>
         set (parseUnmergedFiles s) = set (listing_paths s) \<and>
         (\<forall>p\<in>set (listing_paths s).
            count_list (parseUnmergedFiles s) p = 1 \<and>
            set (takeWhile (\<lambda>q. q \<noteq> p) (parseUnmergedFiles s)) =
              set (takeWhile (\<lambda>q. q \<noteq> p) (listing_paths s)))"
  using parseUnmergedFiles_paths [OF assms]
  by (simp add: distinct_array_from_set set_array_from_set count_array_from_set before_array_from_set)

text \<open>
  C5 fails on the code. git prints a path with a space in it as it is, after the TAB.
  The path \<^verbatim>\<open>my file.txt\<close>, unmerged at two stages, stands on two lines of the
  listing, and parseUnmergedFiles returns the one-element list \<^verbatim>\<open>[file.txt]\<close>: the
  path of the listing is not in the result, not once and not at all, and what is in the
  result is not a path of the listing. The function is documented to return the unique
  paths of the files that have merge conflicts, and main reports its result as the
  conflicted files.
\<close>

theorem parseUnmergedFiles_spaced_path_lost:
  "listing_paths listing_spaced = [(js ''my file.txt''), (js ''my file.txt'')] \<and>
   parseUnmergedFiles listing_spaced = [(js ''file.txt'')] \<and>
   count_list (parseUnmergedFiles listing_spaced) (js ''my file.txt'') = 0 \<and>
   (js ''file.txt'') \<notin> set (listing_paths listing_spaced)"
  by code_simp

section \<open>Running a command\<close>

lemma runCmd_trace:
  "runCmd sys cmd env (w, tr) = (x, (w1, tr1)) \<Longrightarrow> tr1 = tr @ [Ran cmd env x]"
  by (auto simp: runCmd_def Let_def split: prod.splits sum.splits)

lemma runCmd_ok:
  "sys_exec sys cmd env w = (Inr r, w') \<Longrightarrow>
   runCmd sys cmd env (w, tr) =
     (Inr \<lparr>code = code r, stdout = js_trim (stdout r), stderr = js_trim (stderr r)\<rparr>,
      (w', tr @ [Ran cmd env (Inr \<lparr>code = code r, stdout = js_trim (stdout r), stderr = js_trim (stderr r)\<rparr>)]))"
  by (simp add: runCmd_def Let_def)

lemma collapse3: "fst x = a \<Longrightarrow> x = (a, (fst (snd x), snd (snd x)))"
  by (cases x) auto

lemma collapse_run: "fst x = Inr a \<Longrightarrow> x = (Inr a, snd x)"
  by (cases x) auto

section \<open>resolveCommit\<close>

lemma resolveCommit_remotes_found:
  "resolveCommit_remotes sys ref rs (w, tr) = (Inr res, (w', tr')) \<Longrightarrow>
   \<exists>mid remote rc. remote \<in> set rs \<and>
     tr' = tr @ mid @ [Ran (verify_cmd (remote @ (js ''/'') @ ref)) [] (Inr rc)] \<and>
     ok_with_output rc \<and> res = \<lparr>commit = stdout rc, resolvedRef = remote @ (js ''/'') @ ref\<rparr>"
proof (induction rs arbitrary: w tr)
  case Nil
  then show ?case by (simp add: io_throw_def)
next
  case (Cons remote rs)
  let ?cmd = "verify_cmd (remote @ (js ''/'') @ ref)"
  obtain x w1 tr1 where run: "runCmd sys ?cmd [] (w, tr) = (x, (w1, tr1))"
    by (cases "runCmd sys ?cmd [] (w, tr)") auto
  then have tr1: "tr1 = tr @ [Ran ?cmd [] x]" by (rule runCmd_trace)
  show ?case
  proof (cases x)
    case (Inl e)
    with Cons.prems run show ?thesis by (simp add: io_bind_def Let_def)
  next
    case (Inr rc)
    show ?thesis
    proof (cases "ok_with_output rc")
      case True
      with Cons.prems run Inr
      have "res = \<lparr>commit = stdout rc, resolvedRef = remote @ (js ''/'') @ ref\<rparr>" "tr' = tr1"
        by (auto simp: io_bind_def Let_def io_return_def)
      with tr1 Inr True show ?thesis
        by (intro exI [of _ "[]"] exI [of _ remote] exI [of _ rc]) simp
    next
      case False
      with Cons.prems run Inr
      have "resolveCommit_remotes sys ref rs (w1, tr1) = (Inr res, (w', tr'))"
        by (simp add: io_bind_def Let_def)
      from Cons.IH [OF this] obtain mid r' rc' where
        "r' \<in> set rs" "tr' = tr1 @ mid @ [Ran (verify_cmd (r' @ (js ''/'') @ ref)) [] (Inr rc')]"
        "ok_with_output rc'" "res = \<lparr>commit = stdout rc', resolvedRef = r' @ (js ''/'') @ ref\<rparr>"
        by blast
      with tr1 show ?thesis
        by (intro exI [of _ "Ran ?cmd [] x # mid"] exI [of _ r'] exI [of _ rc']) simp
    qed
  qed
qed

text \<open>
  C10. Where the direct verification of \<open>ref\<close> succeeds, resolveCommit returns the
  commit it printed and \<open>ref\<close> itself as the resolved name. Where resolveCommit returns
  another name, the direct verification had failed, the remotes were listed, and the
  name is \<^verbatim>\<open><remote>/<ref>\<close> for a listed remote whose verification, the last
  command run, succeeded.
\<close>

theorem resolveCommit_keeps_direct_ref:
  "(\<forall>r w'. sys_exec sys (verify_cmd ref) [] w = (Inr r, w') \<and> code r = 0 \<and> js_trim (stdout r) \<noteq> [] \<longrightarrow>
      fst (resolveCommit sys ref (w, tr)) = Inr \<lparr>commit = js_trim (stdout r), resolvedRef = ref\<rparr>) \<and>
   (\<forall>res w' tr'. resolveCommit sys ref (w, tr) = (Inr res, (w', tr')) \<and> resolvedRef res \<noteq> ref \<longrightarrow>
      (\<exists>r0 rr mid remote rc.
         tr' = tr @ Ran (verify_cmd ref) [] (Inr r0) # Ran [JStr (js ''git''), JStr (js ''remote'')] [] (Inr rr) # mid
                  @ [Ran (verify_cmd (remote @ (js ''/'') @ ref)) [] (Inr rc)] \<and>
         \<not> ok_with_output r0 \<and> remote \<in> set (filter_Boolean (js_split_nl (stdout rr))) \<and>
         ok_with_output rc \<and> res = \<lparr>commit = stdout rc, resolvedRef = remote @ (js ''/'') @ ref\<rparr>))"
proof (intro conjI allI impI)
  fix r w'
  assume "sys_exec sys (verify_cmd ref) [] w = (Inr r, w') \<and> code r = 0 \<and> js_trim (stdout r) \<noteq> []"
  then show "fst (resolveCommit sys ref (w, tr)) = Inr \<lparr>commit = js_trim (stdout r), resolvedRef = ref\<rparr>"
    by (simp add: resolveCommit_def io_bind_def runCmd_ok ok_with_output_def io_return_def)
next
  fix res w' tr'
  assume h: "resolveCommit sys ref (w, tr) = (Inr res, (w', tr')) \<and> resolvedRef res \<noteq> ref"
  obtain x w1 tr1 where run: "runCmd sys (verify_cmd ref) [] (w, tr) = (x, (w1, tr1))"
    by (cases "runCmd sys (verify_cmd ref) [] (w, tr)") auto
  then have tr1: "tr1 = tr @ [Ran (verify_cmd ref) [] x]" by (rule runCmd_trace)
  from h run obtain r0 where x: "x = Inr r0"
    by (cases x) (auto simp: resolveCommit_def io_bind_def)
  have nok: "\<not> ok_with_output r0"
    using h run x by (auto simp: resolveCommit_def io_bind_def io_return_def)
  obtain y w2 tr2 where run2: "runCmd sys [JStr (js ''git''), JStr (js ''remote'')] [] (w1, tr1) = (y, (w2, tr2))"
    by (cases "runCmd sys [JStr (js ''git''), JStr (js ''remote'')] [] (w1, tr1)") auto
  then have tr2: "tr2 = tr1 @ [Ran [JStr (js ''git''), JStr (js ''remote'')] [] y]" by (rule runCmd_trace)
  from h run x nok run2 obtain rr where y: "y = Inr rr"
    by (cases y) (auto simp: resolveCommit_def io_bind_def)
  have "resolveCommit_remotes sys ref (filter_Boolean (js_split_nl (stdout rr))) (w2, tr2) = (Inr res, (w', tr'))"
    using h run x nok run2 y by (simp add: resolveCommit_def io_bind_def)
  from resolveCommit_remotes_found [OF this] obtain mid remote rc where
    "remote \<in> set (filter_Boolean (js_split_nl (stdout rr)))"
    "tr' = tr2 @ mid @ [Ran (verify_cmd (remote @ (js ''/'') @ ref)) [] (Inr rc)]"
    "ok_with_output rc" "res = \<lparr>commit = stdout rc, resolvedRef = remote @ (js ''/'') @ ref\<rparr>"
    by blast
  with tr1 tr2 x y nok
  show "\<exists>r0 rr mid remote rc.
         tr' = tr @ Ran (verify_cmd ref) [] (Inr r0) # Ran [JStr (js ''git''), JStr (js ''remote'')] [] (Inr rr) # mid
                  @ [Ran (verify_cmd (remote @ (js ''/'') @ ref)) [] (Inr rc)] \<and>
         \<not> ok_with_output r0 \<and> remote \<in> set (filter_Boolean (js_split_nl (stdout rr))) \<and>
         ok_with_output rc \<and> res = \<lparr>commit = stdout rc, resolvedRef = remote @ (js ''/'') @ ref\<rparr>"
    by (intro exI [of _ r0] exI [of _ rr] exI [of _ mid] exI [of _ remote] exI [of _ rc]) simp
qed

theorem resolveCommit_keeps_direct_ref_witness:
  "fst (resolveCommit (scripted conflicting) (js ''other'') ([], []))
     = Inr \<lparr>commit = theirs_id, resolvedRef = (js ''other'')\<rparr> \<and>
   (\<exists>(rr :: CmdResult) remote.
      remote \<in> set (filter_Boolean (js_split_nl (stdout rr))) \<and>
      fst (resolveCommit (scripted remote_only) (js ''develop'') ([], []))
        = Inr \<lparr>commit = theirs_id, resolvedRef = remote @ (js ''/'') @ (js ''develop'')\<rparr>)"
proof -
  have ex: "sys_exec (scripted conflicting) (verify_cmd (js ''other'')) [] [] = (Inr (success theirs_id), []) \<and>
            code (success theirs_id) = 0 \<and> js_trim (stdout (success theirs_id)) \<noteq> []"
    by code_simp
  have tr: "js_trim (stdout (success theirs_id)) = theirs_id" by code_simp
  from resolveCommit_keeps_direct_ref [of "scripted conflicting" "(js ''other'')" "[]" "[]"] ex tr
  have 1: "fst (resolveCommit (scripted conflicting) (js ''other'') ([], []))
     = Inr \<lparr>commit = theirs_id, resolvedRef = (js ''other'')\<rparr>" by metis
  let ?r = "resolveCommit (scripted remote_only) (js ''develop'') ([], [])"
  have "fst ?r = Inr \<lparr>commit = theirs_id, resolvedRef = (js ''origin/develop'')\<rparr>" by code_simp
  then have eq: "?r = (Inr \<lparr>commit = theirs_id, resolvedRef = (js ''origin/develop'')\<rparr>, (fst (snd ?r), snd (snd ?r)))"
    by (rule collapse3)
  have ne: "resolvedRef \<lparr>commit = theirs_id, resolvedRef = (js ''origin/develop'')\<rparr> \<noteq> (js ''develop'')" by simp
  note th = resolveCommit_keeps_direct_ref [of "scripted remote_only" "(js ''develop'')" "[]" "[]",
      THEN conjunct2, rule_format, OF conjI [OF eq ne]]
  from th obtain r0 rr mid remote rc where h:
    "snd (snd ?r) = [] @ Ran (verify_cmd (js ''develop'')) [] (Inr r0) # Ran [JStr (js ''git''), JStr (js ''remote'')] [] (Inr rr) # mid
         @ [Ran (verify_cmd (remote @ (js ''/'') @ (js ''develop''))) [] (Inr rc)] \<and>
     \<not> ok_with_output r0 \<and> remote \<in> set (filter_Boolean (js_split_nl (stdout rr))) \<and>
     ok_with_output rc \<and>
     \<lparr>commit = theirs_id, resolvedRef = (js ''origin/develop'')\<rparr>
       = \<lparr>commit = stdout rc, resolvedRef = remote @ (js ''/'') @ (js ''develop'')\<rparr>"
    by (elim exE) (rule that)
  then have m: "remote \<in> set (filter_Boolean (js_split_nl (stdout rr)))"
    and e: "\<lparr>commit = theirs_id, resolvedRef = (js ''origin/develop'')\<rparr>
       = \<lparr>commit = theirs_id, resolvedRef = remote @ (js ''/'') @ (js ''develop'')\<rparr>"
    by simp_all
  have f: "fst ?r = Inr \<lparr>commit = theirs_id, resolvedRef = remote @ (js ''/'') @ (js ''develop'')\<rparr>"
    using eq e by (metis fst_conv)
  have 2: "\<exists>(rr :: CmdResult) remote.
      remote \<in> set (filter_Boolean (js_split_nl (stdout rr))) \<and>
      fst ?r = Inr \<lparr>commit = theirs_id, resolvedRef = remote @ (js ''/'') @ (js ''develop'')\<rparr>"
    by (rule exI [of _ rr], rule exI [of _ remote], rule conjI [OF m f])
  from 1 2 show ?thesis by blast
qed

section \<open>checkConflictsWithMergeTree\<close>

lemma header_line_position:
  "list_ex (starts_with_any hs) (js_split_lf s) \<Longrightarrow>
   \<exists>pre h post. s = pre @ h @ post \<and> h \<in> set hs \<and> (pre = [] \<or> last pre = LF)"
proof (induction s rule: js_split_lf.induct)
  case (1 s)
  show ?case
  proof (cases "dropWhile (\<lambda>c. c \<noteq> LF) s")
    case Nil
    then have "js_split_lf s = [s]" by (subst js_split_lf.simps) (simp only: list.case)
    with "1.prems" obtain h where "h \<in> set hs" "prefix h s"
      by (auto simp: starts_with_any_def list_ex_iff)
    then obtain post where "s = [] @ h @ post" by (auto simp: prefix_def)
    with \<open>h \<in> set hs\<close> show ?thesis by blast
  next
    case (Cons x rest)
    then have x: "x = LF" using hd_dropWhile [of "\<lambda>c. c \<noteq> LF" s] by simp
    let ?a = "takeWhile (\<lambda>c. c \<noteq> LF) s"
    have s: "s = ?a @ LF # rest"
      using Cons x takeWhile_dropWhile_id [of "\<lambda>c. c \<noteq> LF" s] by simp
    have lines: "js_split_lf s = ?a # js_split_lf rest"
      by (subst js_split_lf.simps) (simp only: Cons list.case)
    show ?thesis
    proof (cases "starts_with_any hs ?a")
      case True
      then obtain h where h: "h \<in> set hs" "prefix h ?a"
        by (auto simp: starts_with_any_def list_ex_iff)
      then obtain p where "?a = h @ p" by (auto simp: prefix_def)
      with s have "s = [] @ h @ (p @ LF # rest)" by simp
      with h(1) show ?thesis by blast
    next
      case False
      with "1.prems" lines have "list_ex (starts_with_any hs) (js_split_lf rest)" by simp
      from "1.IH" [OF Cons this] obtain pre h post where
        r: "rest = pre @ h @ post" "h \<in> set hs" "pre = [] \<or> last pre = LF" by blast
      have "s = (?a @ LF # pre) @ h @ post" using s r(1) by simp
      moreover have "last (?a @ LF # pre) = LF" using r(3) by auto
      ultimately show ?thesis using r(2) by blast
    qed
  qed
qed

lemma dropWhile_keeps:
  assumes "h \<noteq> []" and "\<not> P (hd h)"
  shows "dropWhile P (a @ h @ b) = dropWhile P a @ h @ b"
proof (cases "\<forall>x\<in>set a. P x")
  case True
  then have "dropWhile P (a @ h @ b) = dropWhile P (h @ b)" by simp
  moreover have "dropWhile P (h @ b) = h @ b" using assms by (cases h) auto
  moreover have "dropWhile P a = []" using True by simp
  ultimately show ?thesis by simp
next
  case False
  then obtain x where "x \<in> set a" "\<not> P x" by blast
  then show ?thesis by simp
qed

lemma last_dropWhile: "dropWhile P xs \<noteq> [] \<Longrightarrow> last (dropWhile P xs) = last xs"
  by (induction xs) (auto split: if_splits)

lemma js_trim_keeps_header:
  assumes s: "s = pre @ h @ post" and h: "h \<noteq> []" "\<not> is_space (hd h)" "\<not> is_space (last h)"
    and pre: "pre = [] \<or> last pre = LF"
  shows "\<exists>pre' post'. js_trim s = pre' @ h @ post' \<and> (pre' = [] \<or> last pre' = LF)"
proof -
  let ?pre = "dropWhile is_space pre"
  let ?rp = "dropWhile is_space (rev post)"
  have 1: "dropWhile is_space s = ?pre @ h @ post"
    using s h by (simp add: dropWhile_keeps)
  have rh: "rev h \<noteq> []" "\<not> is_space (hd (rev h))" using h by (simp_all add: hd_rev)
  have "rev (?pre @ h @ post) = rev post @ rev h @ rev ?pre" by simp
  then have "dropWhile is_space (rev (dropWhile is_space s)) = ?rp @ rev h @ rev ?pre"
    using 1 dropWhile_keeps [of "rev h" is_space "rev post" "rev ?pre"] rh by simp
  then have "js_trim s = ?pre @ h @ rev ?rp" by (simp add: js_trim_def)
  moreover have "?pre = [] \<or> last ?pre = LF"
  proof (cases "?pre = []")
    case True
    then show ?thesis by simp
  next
    case False
    then have "last ?pre = last pre" by (rule last_dropWhile)
    moreover have "pre \<noteq> []" using False by auto
    ultimately show ?thesis using pre by simp
  qed
  ultimately show ?thesis by blast
qed

lemma test_multiline_here:
  assumes "h \<in> set hs" and "h \<noteq> []"
  shows "test_multiline hs True (h @ post)"
proof -
  have "starts_with_any hs (h @ post)"
    using assms(1) by (auto simp: starts_with_any_def list_ex_iff intro!: bexI [of _ h])
  moreover obtain c cs where "h @ post = c # cs" using assms(2) by (cases h) auto
  ultimately show ?thesis by simp
qed

lemma test_multiline_after_lf:
  "test_multiline hs True rest \<Longrightarrow> test_multiline hs b (pre @ LF # rest)"
  by (induction pre arbitrary: b) (auto simp: is_line_terminator_def LF_def)

lemma test_multiline_position:
  assumes "s = pre @ h @ post" and "h \<in> set hs" and "h \<noteq> []" and "pre = [] \<or> last pre = LF"
  shows "test_multiline hs True s"
proof (cases "pre = []")
  case True
  with assms show ?thesis by (simp add: test_multiline_here)
next
  case False
  with assms(4) have "pre = butlast pre @ [LF]" by (metis append_butlast_last_id)
  then have "s = butlast pre @ LF # (h @ post)" using assms(1) by (metis append.assoc append_Cons append_Nil)
  then show ?thesis using test_multiline_after_lf [OF test_multiline_here [OF assms(2,3)]] by simp
qed

lemma structural_headers_all:
  "list_all (\<lambda>h. h \<noteq> [] \<and> \<not> is_space (hd h) \<and> \<not> is_space (last h)) structural_headers"
  by code_simp

lemma structural_headers_shape:
  "h \<in> set structural_headers \<Longrightarrow> h \<noteq> [] \<and> \<not> is_space (hd h) \<and> \<not> is_space (last h)"
  using structural_headers_all by (simp add: list_all_iff)

lemma header_line_survives_trim:
  assumes "has_header_line s"
  shows "test_multiline structural_headers True (js_trim s)"
proof -
  from assms header_line_position obtain pre h post where
    p: "s = pre @ h @ post" "h \<in> set structural_headers" "pre = [] \<or> last pre = LF"
    unfolding has_header_line_def by blast
  from structural_headers_shape [OF p(2)] have hs: "h \<noteq> []" "\<not> is_space (hd h)" "\<not> is_space (last h)"
    by simp_all
  from js_trim_keeps_header [OF p(1) hs p(3)] obtain pre' post' where
    t: "js_trim s = pre' @ h @ post'" "pre' = [] \<or> last pre' = LF" by blast
  show ?thesis by (rule test_multiline_position [OF t(1) p(2) hs(1) t(2)])
qed

text \<open>
  C1. Whenever the report of \<^verbatim>\<open>git merge-tree\<close> has a line beginning with one of
  the five structural headers, the structural test on the report as runCmd hands it over
  succeeds and checkConflictsWithMergeTree returns true. No conflict marker is asked
  for: the structural trigger alone decides.
\<close>

theorem checkConflictsWithMergeTree_structural_trigger:
  assumes "sys_exec sys (merge_tree_cmd mergeBase oursCommit theirsCommit emptyTree) [] w = (Inr r, w')"
    and "has_header_line (stdout r)"
  shows "test_multiline structural_headers True (js_trim (stdout r)) \<and>
         fst (checkConflictsWithMergeTree sys mergeBase oursCommit theirsCommit emptyTree (w, tr)) = Inr True"
proof -
  have t: "test_multiline structural_headers True (js_trim (stdout r))"
    using assms(2) by (rule header_line_survives_trim)
  have "runCmd sys (merge_tree_cmd mergeBase oursCommit theirsCommit emptyTree) [] (w, tr) =
     (Inr \<lparr>code = code r, stdout = js_trim (stdout r), stderr = js_trim (stderr r)\<rparr>,
      (w', tr @ [Ran (merge_tree_cmd mergeBase oursCommit theirsCommit emptyTree) []
                  (Inr \<lparr>code = code r, stdout = js_trim (stdout r), stderr = js_trim (stderr r)\<rparr>)]))"
    using assms(1) by (rule runCmd_ok)
  then have "fst (checkConflictsWithMergeTree sys mergeBase oursCommit theirsCommit emptyTree (w, tr)) = Inr True"
    using t by (simp add: checkConflictsWithMergeTree_def io_bind_def io_return_def)
  with t show ?thesis by simp
qed

theorem checkConflictsWithMergeTree_structural_trigger_witness:
  "\<not> js_includes removed_in_local_report conflict_marker \<and>
   fst (checkConflictsWithMergeTree (scripted delete_modify_repo) (JStr base_id) ours_id theirs_id
          (JStr well_known_empty_tree) ([], [])) = Inr True"
proof -
  have ex: "sys_exec (scripted delete_modify_repo) (merge_tree_cmd (JStr base_id) ours_id theirs_id (JStr well_known_empty_tree)) [] []
              = (Inr (success removed_in_local_report), [])"
    by code_simp
  have hl: "has_header_line (stdout (success removed_in_local_report))" by code_simp
  have nm: "\<not> js_includes removed_in_local_report conflict_marker" by code_simp
  from checkConflictsWithMergeTree_structural_trigger [OF ex hl, of "[]"] nm show ?thesis by simp
qed

section \<open>getFileConflictDetail\<close>

lemma classify_diff_kind:
  "rename (classify_diff no_detail df) = None \<and>
   conflict_type (classify_diff no_detail df) \<in> {content, delete_modify, modify_delete}"
  by (auto simp: classify_diff_def no_detail_def split: option.splits)

text \<open>
  What the code does with the renames, with a merge base: when the side of ours lists a
  rename of the candidate path, getFileConflictDetail classifies rename_modify with that
  rename, whether or not the side of theirs lists one too, and runs no path-scoped diff;
  when neither side lists one, it falls through to step 2 and answers what the
  path-scoped diff says, which is content, delete_modify or modify_delete, with no
  rename.
\<close>

lemma getFileConflictDetail_rename_precedence:
  "(\<forall>mb ourRenames s1 theirRenames s2 oldName newName d s3.
      mb \<noteq> [] \<and>
      runCmd sys (renames_cmd mb oc) [] s = (Inr ourRenames, s1) \<and>
      runCmd sys (renames_cmd mb tc) [] s1 = (Inr theirRenames, s2) \<and>
      find_rename (stdout ourRenames) file = Some (oldName, newName) \<and>
      runCmd sys (blob_diff_cmd (oc @ (js '':'') @ newName) (tc @ (js '':'') @ oldName)) [] s2 = (Inr d, s3) \<longrightarrow>
      (\<exists>res. getFileConflictDetail sys file oc tc (Some mb) s = (Inr res, s3) \<and>
             conflict_type res = rename_modify \<and>
             rename res = Some \<lparr>old_path = oldName, new_path = newName, side = Ours\<rparr> \<and>
             diff res = diff_text d)) \<and>
   (\<forall>mb ourRenames s1 theirRenames s2 d s3.
      mb \<noteq> [] \<and>
      runCmd sys (renames_cmd mb oc) [] s = (Inr ourRenames, s1) \<and>
      runCmd sys (renames_cmd mb tc) [] s1 = (Inr theirRenames, s2) \<and>
      find_rename (stdout ourRenames) file = None \<and>
      find_rename (stdout theirRenames) file = None \<and>
      runCmd sys (path_diff_cmd oc tc file) [] s2 = (Inr d, s3) \<longrightarrow>
      getFileConflictDetail sys file oc tc (Some mb) s = (Inr (classify_diff no_detail (diff_text d)), s3) \<and>
      rename (classify_diff no_detail (diff_text d)) = None \<and>
      conflict_type (classify_diff no_detail (diff_text d)) \<in> {content, delete_modify, modify_delete})"
proof (intro conjI allI impI)
  fix mb ourRenames s1 theirRenames s2 oldName newName d s3
  assume "mb \<noteq> [] \<and>
      runCmd sys (renames_cmd mb oc) [] s = (Inr ourRenames, s1) \<and>
      runCmd sys (renames_cmd mb tc) [] s1 = (Inr theirRenames, s2) \<and>
      find_rename (stdout ourRenames) file = Some (oldName, newName) \<and>
      runCmd sys (blob_diff_cmd (oc @ (js '':'') @ newName) (tc @ (js '':'') @ oldName)) [] s2 = (Inr d, s3)"
  then show "\<exists>res. getFileConflictDetail sys file oc tc (Some mb) s = (Inr res, s3) \<and>
             conflict_type res = rename_modify \<and>
             rename res = Some \<lparr>old_path = oldName, new_path = newName, side = Ours\<rparr> \<and>
             diff res = diff_text d"
    by (simp add: getFileConflictDetail_def rename_check_def io_bind_def io_return_def Let_def)
next
  fix mb ourRenames s1 theirRenames s2 d s3
  assume h: "mb \<noteq> [] \<and>
      runCmd sys (renames_cmd mb oc) [] s = (Inr ourRenames, s1) \<and>
      runCmd sys (renames_cmd mb tc) [] s1 = (Inr theirRenames, s2) \<and>
      find_rename (stdout ourRenames) file = None \<and>
      find_rename (stdout theirRenames) file = None \<and>
      runCmd sys (path_diff_cmd oc tc file) [] s2 = (Inr d, s3)"
  then show "getFileConflictDetail sys file oc tc (Some mb) s = (Inr (classify_diff no_detail (diff_text d)), s3)"
    by (simp add: getFileConflictDetail_def rename_check_def io_bind_def io_return_def Let_def no_detail_def)
  show "rename (classify_diff no_detail (diff_text d)) = None"
    using classify_diff_kind by blast
  show "conflict_type (classify_diff no_detail (diff_text d)) \<in> {content, delete_modify, modify_delete}"
    using classify_diff_kind by blast
qed

text \<open>
  C4 fails on the code. Both sides list a rename of \<^verbatim>\<open>a.txt\<close>, ours to
  \<^verbatim>\<open>b.txt\<close> and theirs to \<^verbatim>\<open>c.txt\<close>. getFileConflictDetail does not fall through
  to step 2: the rename of ours is taken and nothing looks at the rename of theirs. The
  answer is rename_modify, with a message that says that theirs modified \<^verbatim>\<open>a.txt\<close>,
  which theirs renamed, and with the error text of git in the place of the diff, since
  the commit of theirs has no \<^verbatim>\<open>a.txt\<close> to compare with. The path-scoped diff of
  step 2 is never run.
\<close>

theorem getFileConflictDetail_both_renamed:
  "find_rename ((js ''R100'') @ [TAB] @ (js ''a.txt'') @ [TAB] @ (js ''b.txt'')) (js ''a.txt'') = Some ((js ''a.txt''), (js ''b.txt'')) \<and>
   find_rename ((js ''R090'') @ [TAB] @ (js ''a.txt'') @ [TAB] @ (js ''c.txt'')) (js ''a.txt'') = Some ((js ''a.txt''), (js ''c.txt'')) \<and>
   (case fst (getFileConflictDetail (scripted both_renamed) (js ''a.txt'') ours_id theirs_id (Some base_id) ([], [])) of
      Inr d \<Rightarrow> conflict_type d = rename_modify \<and>
               rename d = Some \<lparr>old_path = (js ''a.txt''), new_path = (js ''b.txt''), side = Ours\<rparr> \<and>
               message d = Some ((js ''Your branch: renamed a.txt '') @ arrow @ (js '' b.txt'') @ [LF] @
                                 (js ''Their branch: modified a.txt'')) \<and>
               diff d = Some missing_path_error
    | Inl e \<Rightarrow> False) \<and>
   commands (snd (snd (getFileConflictDetail (scripted both_renamed) (js ''a.txt'') ours_id theirs_id (Some base_id) ([], []))))
     = [renames_cmd base_id ours_id, renames_cmd base_id theirs_id,
        blob_diff_cmd (ours_id @ (js '':b.txt'')) (theirs_id @ (js '':a.txt''))] \<and>
   path_diff_cmd ours_id theirs_id (js ''a.txt'') \<notin>
     set (commands (snd (snd (getFileConflictDetail (scripted both_renamed) (js ''a.txt'') ours_id theirs_id (Some base_id) ([], [])))))"
  by code_simp

text \<open>
  Step 2 goes by the marker alone, whatever the diff is otherwise: a deleted-file marker
  gives delete_modify, a new-file marker without it gives modify_delete.
\<close>

lemma classify_diff_markers:
  "(js_includes t (js ''deleted file mode'') \<longrightarrow>
      conflict_type (classify_diff no_detail (Some t)) = delete_modify) \<and>
   (js_includes t (js ''new file mode'') \<and> \<not> js_includes t (js ''deleted file mode'') \<longrightarrow>
      conflict_type (classify_diff no_detail (Some t)) = modify_delete)"
  by (cases t) (auto simp: classify_diff_def no_detail_def)

text \<open>
  C2 fails on the code. With the file deleted by ours and changed by theirs, the diff
  from ours to theirs shows a new file and getFileConflictDetail answers
  modify_delete; with the roles reversed the diff shows a deleted file and the answer is
  delete_modify. The claim has the two the other way round, and so has the naming of
  the rename kinds in the same function, where the first word says what ours did.
\<close>

theorem getFileConflictDetail_deletion_sides:
  "(case fst (getFileConflictDetail (scripted ours_deleted) (js ''f.txt'') ours_id theirs_id (Some base_id) ([], [])) of
      Inr d \<Rightarrow> conflict_type d = modify_delete | Inl e \<Rightarrow> False) \<and>
   (case fst (getFileConflictDetail (scripted theirs_deleted) (js ''f.txt'') ours_id theirs_id (Some base_id) ([], [])) of
      Inr d \<Rightarrow> conflict_type d = delete_modify | Inl e \<Rightarrow> False)"
  by code_simp

section \<open>TempIndex.cleanup\<close>

lemma cleanup_total: "\<exists>ti' s'. cleanup sys ti s = (Inr ti', s')"
  by (cases s)
     (auto simp: cleanup_def io_catch_def io_bind_def io_return_def deno_remove_def
        split: prod.splits sum.splits)

lemma finally_cleanup: "fst (io_finally m (cleanup sys ti) s) = fst (m s)"
proof -
  obtain r s1 where m: "m s = (r, s1)" by (cases "m s")
  from cleanup_total [of sys ti s1] obtain ti' s2 where "cleanup sys ti s1 = (Inr ti', s2)" by blast
  with m show ?thesis by (simp add: io_finally_def)
qed

text \<open>
  C8. cleanup never raises. After a create that returned the path \<open>p\<close>, a cleanup
  whose removal of \<open>p\<close> succeeds removes it and forgets the path, and every later
  cleanup changes nothing and touches nothing; a cleanup whose removal fails swallows
  the failure and keeps the path. A block guarded by
  \<^verbatim>\<open>finally { cleanup }\<close> completes as its body did, so the removal cannot alter
  the result of the pipeline.
\<close>

theorem cleanup_idempotent_total:
  "(\<exists>ti' s'. cleanup sys ti s = (Inr ti', s')) \<and>
   (\<forall>p ti1 s1 w tr w'.
      create sys ti s = (Inr (p, ti1), s1) \<and> p \<noteq> [] \<and> sys_remove sys p w = (Inr (), w') \<longrightarrow>
      cleanup sys ti1 (w, tr) = (Inr (ti1\<lparr>path := None\<rparr>), (w', tr @ [Removed p (Inr ())])) \<and>
      (\<forall>s2. cleanup sys (ti1\<lparr>path := None\<rparr>) s2 = (Inr (ti1\<lparr>path := None\<rparr>), s2))) \<and>
   (\<forall>p ti1 s1 w tr e w'.
      create sys ti s = (Inr (p, ti1), s1) \<and> p \<noteq> [] \<and> sys_remove sys p w = (Inl e, w') \<longrightarrow>
      cleanup sys ti1 (w, tr) = (Inr ti1, (w', tr @ [Removed p (Inl e)]))) \<and>
   fst (io_finally m (cleanup sys ti) s) = fst (m s)"
proof (intro conjI allI impI)
  show "\<exists>ti' s'. cleanup sys ti s = (Inr ti', s')" by (rule cleanup_total)
  show "fst (io_finally m (cleanup sys ti) s) = fst (m s)" by (rule finally_cleanup)
next
  fix p ti1 s1 w tr w'
  assume h: "create sys ti s = (Inr (p, ti1), s1) \<and> p \<noteq> [] \<and> sys_remove sys p w = (Inr (), w')"
  then have "path ti1 = Some p"
    by (cases s) (auto simp: create_def io_bind_def io_return_def deno_makeTempFile_def split: prod.splits sum.splits)
  with h show "cleanup sys ti1 (w, tr) = (Inr (ti1\<lparr>path := None\<rparr>), (w', tr @ [Removed p (Inr ())]))"
    by (simp add: cleanup_def has_path_def io_catch_def io_bind_def io_return_def deno_remove_def)
next
  fix p ti1 s1 w tr w' s2
  show "cleanup sys (ti1\<lparr>path := None\<rparr>) s2 = (Inr (ti1\<lparr>path := None\<rparr>), s2)"
    by (simp add: cleanup_def has_path_def io_return_def)
next
  fix p ti1 s1 w tr e w'
  assume h: "create sys ti s = (Inr (p, ti1), s1) \<and> p \<noteq> [] \<and> sys_remove sys p w = (Inl e, w')"
  then have "path ti1 = Some p"
    by (cases s) (auto simp: create_def io_bind_def io_return_def deno_makeTempFile_def split: prod.splits sum.splits)
  with h show "cleanup sys ti1 (w, tr) = (Inr ti1, (w', tr @ [Removed p (Inl e)]))"
    by (simp add: cleanup_def has_path_def io_catch_def io_bind_def io_return_def deno_remove_def)
qed

theorem cleanup_idempotent_total_witness:
  "cleanup (scripted []) tmp_index ([(js ''/tmp/index'')], [])
     = (Inr \<lparr>path = None\<rparr>, ([], [Removed (js ''/tmp/index'') (Inr ())])) \<and>
   cleanup (scripted []) \<lparr>path = None\<rparr> ([], [Removed (js ''/tmp/index'') (Inr ())])
     = (Inr \<lparr>path = None\<rparr>, ([], [Removed (js ''/tmp/index'') (Inr ())])) \<and>
   cleanup (scripted []) tmp_index ([], [])
     = (Inr tmp_index, ([], [Removed (js ''/tmp/index'') (Inl (Thrown (js ''NotFound'')))]))"
proof -
  let ?sys = "scripted []"
  have cr: "create ?sys new_TempIndex ([], [])
              = (Inr ((js ''/tmp/index''), tmp_index), ([(js ''/tmp/index'')], [MadeTemp (Inr (js ''/tmp/index''))]))"
    by (simp add: create_def io_bind_def io_return_def deno_makeTempFile_def scripted_def scripted_default_def
          new_TempIndex_def tmp_index_def)
  have ne: "(js ''/tmp/index'') \<noteq> []" by simp
  have rm: "sys_remove ?sys (js ''/tmp/index'') [(js ''/tmp/index'')] = (Inr (), [])"
    by (simp add: scripted_def scripted_default_def)
  have rf: "sys_remove ?sys (js ''/tmp/index'') [] = (Inl (Thrown (js ''NotFound'')), [])"
    by (simp add: scripted_def scripted_default_def)
  have up: "tmp_index\<lparr>path := None\<rparr> = \<lparr>path = None\<rparr>" by (simp add: tmp_index_def)
  from cleanup_idempotent_total [of ?sys new_TempIndex "([], [])"] cr ne rm
  have 1: "cleanup ?sys tmp_index ([(js ''/tmp/index'')], []) = (Inr (tmp_index\<lparr>path := None\<rparr>), ([], [] @ [Removed (js ''/tmp/index'') (Inr ())]))"
    and 2: "\<forall>s2. cleanup ?sys (tmp_index\<lparr>path := None\<rparr>) s2 = (Inr (tmp_index\<lparr>path := None\<rparr>), s2)"
    by blast+
  from cleanup_idempotent_total [of ?sys new_TempIndex "([], [])"] cr ne rf
  have 3: "cleanup ?sys tmp_index ([], []) = (Inr tmp_index, ([], [] @ [Removed (js ''/tmp/index'') (Inl (Thrown (js ''NotFound'')))]))"
    by blast
  from 1 2 3 up show ?thesis by simp
qed

section \<open>checkConflictsWithReadTree\<close>

text \<open>
  C6, as amended. When the read-tree step fails to run (it raises, or exits nonzero)
  and the ls-files step that follows returns, checkConflictsWithReadTree does not raise
  and returns the list parsed from the ls-files output; when that list is empty, the
  \<^verbatim>\<open>try\<close> block of main ends without returning and leaves the result as it was.
  When the ls-files step itself raises, whatever the read-tree step did, the exception
  reaches the caller. And in a run of main whose steps up to the primary strategy
  return, whose read-tree step fails and whose ls-files step returns no unmerged entry,
  control falls through to the fallback: from the state the release of the scratch
  index leaves, main is the fallback strategy, started with a result that says
  that no conflict was found.
\<close>

theorem checkConflictsWithReadTree_after_failed_read_tree:
  "(\<forall>x s1 lsRes s2.
      runGitWithIndex sys ti (read_tree_cmd b oc tc) s = (x, s1) \<and>
      ((\<exists>e. x = Inl e) \<or> (\<exists>r. x = Inr r \<and> code r \<noteq> 0)) \<and>
      runGitWithIndex sys ti ls_files_cmd s1 = (Inr lsRes, s2) \<longrightarrow>
      checkConflictsWithReadTree sys b oc tc ti s = (Inr (parseUnmergedFiles (stdout lsRes)), s2) \<and>
      (parseUnmergedFiles (stdout lsRes) = [] \<longrightarrow>
         primary_strategy sys printDiffs b oc tc oursCommit theirsCommit mergeBase ti result s
           = (Inr (None, result), s2))) \<and>
   (\<forall>x s1 e s2.
      runGitWithIndex sys ti (read_tree_cmd b oc tc) s = (x, s1) \<and>
      runGitWithIndex sys ti ls_files_cmd s1 = (Inl e, s2) \<longrightarrow>
      checkConflictsWithReadTree sys b oc tc ti s = (Inl e, s2)) \<and>
   (\<forall>s0 oursResult s1 theirsResult s2 emptyTree s3 mbRes s4 baseTree s5 oursTree s6 theirsTree s7
      p tempIndex s8 x s9 lsRes s10.
      resolveCommit sys (js ''HEAD'') s0 = (Inr oursResult, s1) \<and>
      resolveCommit sys otherRef s1 = (Inr theirsResult, s2) \<and>
      js_async_call (getEmptyTreeHash sys) s2 = (Inr emptyTree, s3) \<and>
      runCmd sys [JStr (js ''git''), JStr (js ''merge-base''), JStr (commit oursResult),
                  JStr (commit theirsResult)] [] s3 = (Inr mbRes, s4) \<and>
      revToTree sys (if ok_with_output mbRes then stdout mbRes else []) emptyTree s4 = (Inr baseTree, s5) \<and>
      revToTree sys (commit oursResult) emptyTree s5 = (Inr oursTree, s6) \<and>
      revToTree sys (commit theirsResult) emptyTree s6 = (Inr theirsTree, s7) \<and>
      create sys new_TempIndex s7 = (Inr (p, tempIndex), s8) \<and>
      runGitWithIndex sys tempIndex (read_tree_cmd baseTree oursTree theirsTree) s8 = (x, s9) \<and>
      ((\<exists>e. x = Inl e) \<or> (\<exists>r. x = Inr r \<and> code r \<noteq> 0)) \<and>
      runGitWithIndex sys tempIndex ls_files_cmd s9 = (Inr lsRes, s10) \<and>
      parseUnmergedFiles (stdout lsRes) = [] \<longrightarrow>
      main sys currentRef otherRef printDiffs s0 =
        fallback_strategy sys printDiffs (commit oursResult) (commit theirsResult)
          (if ok_with_output mbRes then stdout mbRes else []) emptyTree
          \<lparr>current_ref = currentRef, other_ref = resolvedRef theirsResult,
           ours_commit = commit oursResult, theirs_commit = commit theirsResult,
           merge_base = or_undefined (if ok_with_output mbRes then stdout mbRes else []),
           conflicts = False, conflicted_files = [], files = Map.empty\<rparr>
          (snd (cleanup sys tempIndex s10)))"
proof (intro conjI allI impI)
  fix x s1 lsRes s2
  assume h: "runGitWithIndex sys ti (read_tree_cmd b oc tc) s = (x, s1) \<and>
      ((\<exists>e. x = Inl e) \<or> (\<exists>r. x = Inr r \<and> code r \<noteq> 0)) \<and>
      runGitWithIndex sys ti ls_files_cmd s1 = (Inr lsRes, s2)"
  then show c: "checkConflictsWithReadTree sys b oc tc ti s = (Inr (parseUnmergedFiles (stdout lsRes)), s2)"
    by (auto simp: checkConflictsWithReadTree_def io_bind_def io_catch_def io_return_def split: sum.splits)
  assume "parseUnmergedFiles (stdout lsRes) = []"
  with c show "primary_strategy sys printDiffs b oc tc oursCommit theirsCommit mergeBase ti result s
           = (Inr (None, result), s2)"
    by (simp add: primary_strategy_def io_bind_def io_return_def)
next
  fix x s1 e s2
  assume "runGitWithIndex sys ti (read_tree_cmd b oc tc) s = (x, s1) \<and>
      runGitWithIndex sys ti ls_files_cmd s1 = (Inl e, s2)"
  then show "checkConflictsWithReadTree sys b oc tc ti s = (Inl e, s2)"
    by (auto simp: checkConflictsWithReadTree_def io_bind_def io_catch_def io_return_def split: sum.splits)
next
  fix s0 oursResult s1 theirsResult s2 emptyTree s3 mbRes s4 baseTree s5 oursTree s6 theirsTree s7
      p tempIndex s8 x s9 lsRes s10
  assume h: "resolveCommit sys (js ''HEAD'') s0 = (Inr oursResult, s1) \<and>
      resolveCommit sys otherRef s1 = (Inr theirsResult, s2) \<and>
      js_async_call (getEmptyTreeHash sys) s2 = (Inr emptyTree, s3) \<and>
      runCmd sys [JStr (js ''git''), JStr (js ''merge-base''), JStr (commit oursResult),
                  JStr (commit theirsResult)] [] s3 = (Inr mbRes, s4) \<and>
      revToTree sys (if ok_with_output mbRes then stdout mbRes else []) emptyTree s4 = (Inr baseTree, s5) \<and>
      revToTree sys (commit oursResult) emptyTree s5 = (Inr oursTree, s6) \<and>
      revToTree sys (commit theirsResult) emptyTree s6 = (Inr theirsTree, s7) \<and>
      create sys new_TempIndex s7 = (Inr (p, tempIndex), s8) \<and>
      runGitWithIndex sys tempIndex (read_tree_cmd baseTree oursTree theirsTree) s8 = (x, s9) \<and>
      ((\<exists>e. x = Inl e) \<or> (\<exists>r. x = Inr r \<and> code r \<noteq> 0)) \<and>
      runGitWithIndex sys tempIndex ls_files_cmd s9 = (Inr lsRes, s10) \<and>
      parseUnmergedFiles (stdout lsRes) = []"
  let ?mb = "if ok_with_output mbRes then stdout mbRes else []"
  let ?result = "\<lparr>current_ref = currentRef, other_ref = resolvedRef theirsResult,
           ours_commit = commit oursResult, theirs_commit = commit theirsResult,
           merge_base = or_undefined ?mb,
           conflicts = False, conflicted_files = [], files = Map.empty\<rparr>"
  from h have "checkConflictsWithReadTree sys baseTree oursTree theirsTree tempIndex s8 = (Inr [], s10)"
    by (auto simp: checkConflictsWithReadTree_def io_bind_def io_catch_def io_return_def split: sum.splits)
  then have ps: "primary_strategy sys printDiffs baseTree oursTree theirsTree (commit oursResult)
           (commit theirsResult) ?mb tempIndex ?result s8 = (Inr (None, ?result), s10)"
    by (simp add: primary_strategy_def io_bind_def io_return_def)
  obtain ti' s11 where cl: "cleanup sys tempIndex s10 = (Inr ti', s11)"
    using cleanup_total by blast
  have gp: "guarded_primary sys printDiffs baseTree oursTree theirsTree (commit oursResult)
           (commit theirsResult) ?mb ?result s7 = (Inr (None, ?result), s11)"
    using h ps cl by (simp add: guarded_primary_def io_finally_def)
  show "main sys currentRef otherRef printDiffs s0 =
        fallback_strategy sys printDiffs (commit oursResult) (commit theirsResult)
          ?mb emptyTree ?result (snd (cleanup sys tempIndex s10))"
    using h gp cl by (simp add: main_def io_bind_def io_catch_def Let_def)
qed

theorem checkConflictsWithReadTree_after_failed_read_tree_witness:
  "fst (runGitWithIndex (scripted read_tree_raises) tmp_index (read_tree_cmd base_tree ours_tree theirs_tree) ([], []))
     = Inl (Thrown (js ''spawn failed'')) \<and>
   fst (checkConflictsWithReadTree (scripted read_tree_raises) base_tree ours_tree theirs_tree tmp_index ([], []))
     = Inr [(js ''file.txt''), (js ''other.txt'')] \<and>
   fst (checkConflictsWithReadTree (scripted []) base_tree ours_tree theirs_tree new_TempIndex ([], []))
     = Inl (Error (js ''Temporary index not created'')) \<and>
   fst (checkConflictsWithReadTree (scripted read_tree_fails) base_tree ours_tree theirs_tree tmp_index ([], []))
     = Inr [] \<and>
   (\<exists>s'. main (scripted read_tree_fails) (js ''main'') (js ''other'') False ([], []) =
      fallback_strategy (scripted read_tree_fails) False ours_id theirs_id base_id
        (JPromise (Inr well_known_empty_tree))
        \<lparr>current_ref = (js ''main''), other_ref = (js ''other''), ours_commit = ours_id,
         theirs_commit = theirs_id, merge_base = Some base_id, conflicts = False,
         conflicted_files = [], files = Map.empty\<rparr> s')"
proof -
  let ?sys = "scripted read_tree_raises"
  let ?rt = "runGitWithIndex ?sys tmp_index (read_tree_cmd base_tree ours_tree theirs_tree) ([], [])"
  let ?ls = "runGitWithIndex ?sys tmp_index ls_files_cmd (snd ?rt)"
  have a: "fst ?rt = Inl (Thrown (js ''spawn failed''))" by code_simp
  then have rt: "?rt = (Inl (Thrown (js ''spawn failed'')), snd ?rt)" by (cases ?rt) auto
  have "fst ?ls = Inr (success listing_dup)" by code_simp
  then have ls: "?ls = (Inr (success listing_dup), snd ?ls)" by (cases ?ls) auto
  have raised: "(\<exists>e. (Inl (Thrown (js ''spawn failed'')) :: exn + CmdResult) = Inl e) \<or>
                (\<exists>r. (Inl (Thrown (js ''spawn failed'')) :: exn + CmdResult) = Inr r \<and> code r \<noteq> 0)"
    by simp
  from checkConflictsWithReadTree_after_failed_read_tree [of ?sys tmp_index base_tree ours_tree theirs_tree "([], [])", THEN conjunct1, rule_format,
          OF conjI [OF rt conjI [OF raised ls]]]
  have "checkConflictsWithReadTree ?sys base_tree ours_tree theirs_tree tmp_index ([], [])
          = (Inr (parseUnmergedFiles (stdout (success listing_dup))), snd ?ls)" by simp
  moreover have "parseUnmergedFiles (stdout (success listing_dup)) = [(js ''file.txt''), (js ''other.txt'')]"
    by (simp add: success_def listing_dup_parse)
  ultimately have b: "fst (checkConflictsWithReadTree ?sys base_tree ours_tree theirs_tree tmp_index ([], []))
     = Inr [(js ''file.txt''), (js ''other.txt'')]" by simp
  let ?n = "scripted []"
  let ?nrt = "runGitWithIndex ?n new_TempIndex (read_tree_cmd base_tree ours_tree theirs_tree) ([], [])"
  let ?nls = "runGitWithIndex ?n new_TempIndex ls_files_cmd (snd ?nrt)"
  have nrt: "?nrt = (fst ?nrt, snd ?nrt)" by simp
  have "fst ?nls = Inl (Error (js ''Temporary index not created''))" by code_simp
  then have nls: "?nls = (Inl (Error (js ''Temporary index not created'')), snd ?nls)" by (cases ?nls) auto
  from checkConflictsWithReadTree_after_failed_read_tree [of ?n new_TempIndex base_tree ours_tree theirs_tree "([], [])", THEN conjunct2, THEN conjunct1,
          rule_format, OF conjI [OF nrt nls]]
  have c: "fst (checkConflictsWithReadTree ?n base_tree ours_tree theirs_tree new_TempIndex ([], []))
     = Inl (Error (js ''Temporary index not created''))" by simp
  let ?f = "scripted read_tree_fails"
  let ?died = "\<lparr>code = 128, stdout = [], stderr = (js ''fatal: /tmp/index: index file smaller than expected'')\<rparr>"
  let ?frt = "runGitWithIndex ?f tmp_index (read_tree_cmd base_tree ours_tree theirs_tree) ([], [])"
  let ?fls = "runGitWithIndex ?f tmp_index ls_files_cmd (snd ?frt)"
  have "fst ?frt = Inr ?died" by code_simp
  then have frt: "?frt = (Inr ?died, snd ?frt)" by (rule collapse_run)
  have "fst ?fls = Inr ?died" by code_simp
  then have fls: "?fls = (Inr ?died, snd ?fls)" by (rule collapse_run)
  have failed: "(\<exists>e. (Inr ?died :: exn + CmdResult) = Inl e) \<or>
                (\<exists>r. (Inr ?died :: exn + CmdResult) = Inr r \<and> code r \<noteq> 0)" by simp
  have none: "parseUnmergedFiles (stdout ?died) = []" by code_simp
  from checkConflictsWithReadTree_after_failed_read_tree [of ?f tmp_index base_tree ours_tree theirs_tree "([], [])", THEN conjunct1, rule_format,
          OF conjI [OF frt conjI [OF failed fls]]]
  have d: "fst (checkConflictsWithReadTree ?f base_tree ours_tree theirs_tree tmp_index ([], [])) = Inr []"
    using none by simp
  let ?s0 = "([], []) :: jstring list st"
  let ?o1 = "\<lparr>commit = ours_id, resolvedRef = (js ''HEAD'')\<rparr>"
  let ?o2 = "\<lparr>commit = theirs_id, resolvedRef = (js ''other'')\<rparr>"
  let ?et = "JPromise (Inr well_known_empty_tree)"
  let ?o4 = "success base_id"
  let ?mb = "if ok_with_output ?o4 then stdout ?o4 else []"
  let ?r1 = "resolveCommit ?f (js ''HEAD'') ?s0"
  let ?r2 = "resolveCommit ?f (js ''other'') (snd ?r1)"
  let ?r3 = "js_async_call (getEmptyTreeHash ?f) (snd ?r2)"
  let ?r4 = "runCmd ?f [JStr (js ''git''), JStr (js ''merge-base''), JStr (commit ?o1), JStr (commit ?o2)] []
               (snd ?r3)"
  let ?r5 = "revToTree ?f ?mb ?et (snd ?r4)"
  let ?r6 = "revToTree ?f (commit ?o1) ?et (snd ?r5)"
  let ?r7 = "revToTree ?f (commit ?o2) ?et (snd ?r6)"
  let ?r8 = "create ?f new_TempIndex (snd ?r7)"
  let ?r9 = "runGitWithIndex ?f tmp_index (read_tree_cmd base_tree ours_tree theirs_tree) (snd ?r8)"
  let ?r10 = "runGitWithIndex ?f tmp_index ls_files_cmd (snd ?r9)"
  have "fst ?r1 = Inr ?o1" by code_simp
  then have r1: "?r1 = (Inr ?o1, snd ?r1)" by (rule collapse_run)
  have "fst ?r2 = Inr ?o2" by code_simp
  then have r2: "?r2 = (Inr ?o2, snd ?r2)" by (rule collapse_run)
  have "fst ?r3 = Inr ?et" by code_simp
  then have r3: "?r3 = (Inr ?et, snd ?r3)" by (rule collapse_run)
  have "fst ?r4 = Inr ?o4" by code_simp
  then have r4: "?r4 = (Inr ?o4, snd ?r4)" by (rule collapse_run)
  have "fst ?r5 = Inr base_tree" by code_simp
  then have r5: "?r5 = (Inr base_tree, snd ?r5)" by (rule collapse_run)
  have "fst ?r6 = Inr ours_tree" by code_simp
  then have r6: "?r6 = (Inr ours_tree, snd ?r6)" by (rule collapse_run)
  have "fst ?r7 = Inr theirs_tree" by code_simp
  then have r7: "?r7 = (Inr theirs_tree, snd ?r7)" by (rule collapse_run)
  have "fst ?r8 = Inr ((js ''/tmp/index''), tmp_index)" by code_simp
  then have r8: "?r8 = (Inr ((js ''/tmp/index''), tmp_index), snd ?r8)" by (rule collapse_run)
  have "fst ?r9 = Inr ?died" by code_simp
  then have r9: "?r9 = (Inr ?died, snd ?r9)" by (rule collapse_run)
  have "fst ?r10 = Inr ?died" by code_simp
  then have r10: "?r10 = (Inr ?died, snd ?r10)" by (rule collapse_run)
  note run = checkConflictsWithReadTree_after_failed_read_tree [where sys = ?f and otherRef = "(js ''other'')" and currentRef = "(js ''main'')"
                  and printDiffs = False,
      THEN conjunct2, THEN conjunct2, rule_format,
      OF conjI [OF r1 conjI [OF r2 conjI [OF r3 conjI [OF r4 conjI [OF r5 conjI [OF r6 conjI [OF r7
         conjI [OF r8 conjI [OF r9 conjI [OF failed conjI [OF r10 none]]]]]]]]]]]]
  have mb: "?mb = base_id" by code_simp
  have ou: "or_undefined base_id = Some base_id" by code_simp
  from run have e: "\<exists>s'. main ?f (js ''main'') (js ''other'') False ([], []) =
      fallback_strategy ?f False ours_id theirs_id base_id ?et
        \<lparr>current_ref = (js ''main''), other_ref = (js ''other''), ours_commit = ours_id,
         theirs_commit = theirs_id, merge_base = Some base_id, conflicts = False,
         conflicted_files = [], files = Map.empty\<rparr> s'"
    unfolding mb ou by (simp only: ResolvedCommit.simps) blast
  from a b c d e show ?thesis by blast
qed

text \<open>
  C6 as stated fails: only the read-tree call carries a \<^verbatim>\<open>.catch\<close>. Where no
  subprocess can be spawned the read-tree step raises, which is swallowed, and the
  ls-files step raises again, which is not.
\<close>

theorem checkConflictsWithReadTree_raises_counterexample:
  "fst (runGitWithIndex no_spawn tmp_index (read_tree_cmd base_tree ours_tree theirs_tree) ([], []))
     = Inl (Thrown (js ''spawn failed'')) \<and>
   fst (checkConflictsWithReadTree no_spawn base_tree ours_tree theirs_tree tmp_index ([], []))
     = Inl (Thrown (js ''spawn failed''))"
  by code_simp

section \<open>Traces of the library functions\<close>

lemma specD: "spec m Q \<Longrightarrow> m s = (r, (w, tr)) \<Longrightarrow> \<exists>evs. tr = snd s @ evs \<and> Q r evs"
  unfolding spec_def by (metis fst_conv snd_conv)

lemma spec_weaken: "spec m Q \<Longrightarrow> (\<And>r evs. Q r evs \<Longrightarrow> Q' r evs) \<Longrightarrow> spec m Q'"
  unfolding spec_def by blast

lemma spec_return: "Q (Inr x) [] \<Longrightarrow> spec (io_return x) Q"
  by (simp add: spec_def io_return_def)

lemma spec_throw: "Q (Inl e) [] \<Longrightarrow> spec (io_throw e) Q"
  by (simp add: spec_def io_throw_def)

lemma spec_bind:
  assumes m: "spec m Q1" and f: "\<And>x. spec (f x) (Q2 x)"
    and l: "\<And>e evs. Q1 (Inl e) evs \<Longrightarrow> Q (Inl e) evs"
    and r: "\<And>x e1 r e2. Q1 (Inr x) e1 \<Longrightarrow> Q2 x r e2 \<Longrightarrow> Q r (e1 @ e2)"
  shows "spec (io_bind m f) Q"
  unfolding spec_def
proof
  fix s
  obtain a s1 where ms: "m s = (a, s1)" by (cases "m s")
  from m obtain e1 where e1: "snd s1 = snd s @ e1" "Q1 a e1"
    unfolding spec_def using ms by (metis fst_conv snd_conv)
  show "\<exists>evs. snd (snd (io_bind m f s)) = snd s @ evs \<and> Q (fst (io_bind m f s)) evs"
  proof (cases a)
    case (Inl e)
    then have "io_bind m f s = (Inl e, s1)" using ms by (simp add: io_bind_def)
    with e1 l Inl show ?thesis by auto
  next
    case (Inr x)
    then have b: "io_bind m f s = f x s1" using ms by (simp add: io_bind_def)
    from f [of x] obtain e2 where e2: "snd (snd (f x s1)) = snd s1 @ e2" "Q2 x (fst (f x s1)) e2"
      unfolding spec_def by blast
    have "Q (fst (f x s1)) (e1 @ e2)" using r e1(2) e2(2) Inr by blast
    with b e1 e2 show ?thesis by auto
  qed
qed

lemma spec_catch:
  assumes m: "spec m Q1" and h: "\<And>e. spec (h e) (Q2 e)"
    and r: "\<And>x evs. Q1 (Inr x) evs \<Longrightarrow> Q (Inr x) evs"
    and l: "\<And>e e1 r e2. Q1 (Inl e) e1 \<Longrightarrow> Q2 e r e2 \<Longrightarrow> Q r (e1 @ e2)"
  shows "spec (io_catch m h) Q"
  unfolding spec_def
proof
  fix s
  obtain a s1 where ms: "m s = (a, s1)" by (cases "m s")
  from m obtain e1 where e1: "snd s1 = snd s @ e1" "Q1 a e1"
    unfolding spec_def using ms by (metis fst_conv snd_conv)
  show "\<exists>evs. snd (snd (io_catch m h s)) = snd s @ evs \<and> Q (fst (io_catch m h s)) evs"
  proof (cases a)
    case (Inr x)
    then have "io_catch m h s = (Inr x, s1)" using ms by (simp add: io_catch_def)
    with e1 r Inr show ?thesis by auto
  next
    case (Inl e)
    then have b: "io_catch m h s = h e s1" using ms by (simp add: io_catch_def)
    from h [of e] obtain e2 where e2: "snd (snd (h e s1)) = snd s1 @ e2" "Q2 e (fst (h e s1)) e2"
      unfolding spec_def by blast
    have "Q (fst (h e s1)) (e1 @ e2)" using l e1(2) e2(2) Inl by blast
    with b e1 e2 show ?thesis by auto
  qed
qed

lemma spec_finally:
  assumes m: "spec m Q1" and f: "spec fin Q2"
    and q: "\<And>r e1 r2 e2. Q1 r e1 \<Longrightarrow> Q2 r2 e2 \<Longrightarrow>
              Q (case r2 of Inl e \<Rightarrow> Inl e | Inr _ \<Rightarrow> r) (e1 @ e2)"
  shows "spec (io_finally m fin) Q"
  unfolding spec_def
proof
  fix s
  obtain a s1 where ms: "m s = (a, s1)" by (cases "m s")
  from m obtain e1 where e1: "snd s1 = snd s @ e1" "Q1 a e1"
    unfolding spec_def using ms by (metis fst_conv snd_conv)
  obtain b s2 where fs: "fin s1 = (b, s2)" by (cases "fin s1")
  from f obtain e2 where e2: "snd s2 = snd s1 @ e2" "Q2 b e2"
    unfolding spec_def using fs by (metis fst_conv snd_conv)
  have "io_finally m fin s = ((case b of Inl e \<Rightarrow> Inl e | Inr _ \<Rightarrow> a), s2)"
    using ms fs by (simp add: io_finally_def split: sum.splits)
  moreover have "Q (case b of Inl e \<Rightarrow> Inl e | Inr _ \<Rightarrow> a) (e1 @ e2)" using q e1(2) e2(2) by blast
  ultimately show "\<exists>evs. snd (snd (io_finally m fin s)) = snd s @ evs \<and> Q (fst (io_finally m fin s)) evs"
    using e1 e2 by auto
qed

lemma spec_runCmd: "spec (runCmd sys cmd env) (\<lambda>r evs. evs = [Ran cmd env r])"
  by (auto simp: spec_def runCmd_def Let_def split: prod.splits sum.splits)

lemma spec_makeTempFile: "spec (deno_makeTempFile sys) (\<lambda>r evs. evs = [MadeTemp r])"
  by (auto simp: spec_def deno_makeTempFile_def split: prod.splits)

lemma spec_remove: "spec (deno_remove sys p) (\<lambda>r evs. evs = [Removed p r])"
  by (auto simp: spec_def deno_remove_def split: prod.splits)

lemma spec_async:
  assumes "spec m Q1" and "\<And>r evs. Q1 r evs \<Longrightarrow> Q (Inr (JPromise r)) evs"
  shows "spec (js_async_call m) Q"
  using assms unfolding spec_def js_async_call_def
  by (auto split: prod.splits) (metis fst_conv snd_conv)+

lemma emits_return: "emits P (io_return x)"
  by (simp add: emits_def spec_return)

lemma emits_throw: "emits P (io_throw e)"
  by (simp add: emits_def spec_throw)

lemma emits_bind: "emits P m \<Longrightarrow> (\<And>x. emits P (f x)) \<Longrightarrow> emits P (io_bind m f)"
  unfolding emits_def by (erule spec_bind) auto

lemma emits_catch: "emits P m \<Longrightarrow> (\<And>e. emits P (h e)) \<Longrightarrow> emits P (io_catch m h)"
  unfolding emits_def by (erule spec_catch) auto

lemma emits_finally: "emits P m \<Longrightarrow> emits P fin \<Longrightarrow> emits P (io_finally m fin)"
  unfolding emits_def by (erule spec_finally) auto

lemma emits_async: "emits P m \<Longrightarrow> emits P (js_async_call m)"
  unfolding emits_def by (erule spec_async)

lemma emits_await: "emits P (js_await v)"
  by (cases v rule: js_await.cases) (simp_all add: emits_return emits_throw)

lemma emits_runCmd: "(\<And>r. P (Ran cmd env r)) \<Longrightarrow> emits P (runCmd sys cmd env)"
  unfolding emits_def by (rule spec_weaken [OF spec_runCmd]) simp

lemma emits_mono: "emits P m \<Longrightarrow> (\<And>e. P e \<Longrightarrow> P' e) \<Longrightarrow> emits P' m"
  unfolding emits_def by (erule spec_weaken) (auto simp: list_all_iff)

lemma emits_if: "(b \<Longrightarrow> emits P m1) \<Longrightarrow> (\<not> b \<Longrightarrow> emits P m2) \<Longrightarrow> emits P (if b then m1 else m2)"
  by simp

lemma emitsD: "emits P m \<Longrightarrow> m s = (r, (w, tr)) \<Longrightarrow> \<exists>evs. tr = snd s @ evs \<and> list_all P evs"
  unfolding emits_def by (drule specD) auto

lemmas emits_intros = emits_return emits_throw emits_bind emits_catch emits_finally emits_async
  emits_await emits_runCmd emits_if

lemma quiet_simps:
  "quiet (MadeTemp x)" "quiet (Removed p y)"
  "quiet (Ran (JStr (js ''git'') # JStr (js ''rev-parse'') # cs) env r)"
  "quiet (Ran (JStr (js ''git'') # JStr (js ''remote'') # cs) env r)"
  "quiet (Ran (JStr (js ''git'') # JStr (js ''hash-object'') # cs) env r)"
  "quiet (Ran (JStr (js ''git'') # JStr (js ''merge-base'') # cs) env r)"
  "quiet (Ran (JStr (js ''git'') # JStr (js ''diff'') # cs) env r)"
  "quiet (Ran (JStr (js ''git'') # JStr (js ''read-tree'') # cs) env r)"
  by (simp_all add: quiet_def is_merge_tree_def is_ls_files_def ls_files_cmd_def)

lemma emits_resolveCommit_remotes: "emits quiet (resolveCommit_remotes sys ref rs)"
  by (induction rs) (auto intro!: emits_intros simp: quiet_simps Let_def verify_cmd_def)

lemma emits_resolveCommit: "emits quiet (resolveCommit sys ref)"
  unfolding resolveCommit_def
  by (auto intro!: emits_intros emits_resolveCommit_remotes simp: quiet_simps verify_cmd_def)

lemma emits_revToTree: "emits quiet (revToTree sys rv et)"
  unfolding revToTree_def by (auto intro!: emits_intros simp: quiet_simps)

lemma emits_getEmptyTreeHash: "emits quiet (getEmptyTreeHash sys)"
  unfolding getEmptyTreeHash_def by (auto intro!: emits_intros simp: quiet_simps)

lemma emits_rename_check: "emits quiet (rename_check sys file oc tc mb)"
  unfolding rename_check_def Let_def
  by (auto intro!: emits_intros simp: quiet_simps renames_cmd_def blob_diff_cmd_def split: option.splits)

lemma emits_getFileConflictDetail: "emits quiet (getFileConflictDetail sys file oc tc mb)"
  unfolding getFileConflictDetail_def
  by (auto intro!: emits_intros emits_rename_check simp: quiet_simps path_diff_cmd_def)

lemma emits_fill_details: "emits quiet (fill_details sys oc tc mb fs result)"
  by (induction fs arbitrary: result) (auto intro!: emits_intros emits_getFileConflictDetail)

lemma emits_create: "emits quiet (create sys ti)"
  unfolding create_def emits_def
  by (rule spec_bind [OF spec_makeTempFile]) (auto intro!: spec_return simp: quiet_simps)

lemma emits_cleanup: "emits quiet (cleanup sys ti)"
proof -
  have "emits quiet (deno_remove sys p)" for p
    unfolding emits_def by (rule spec_weaken [OF spec_remove]) (simp add: quiet_simps)
  then show ?thesis unfolding cleanup_def by (auto intro!: emits_intros)
qed

lemma quiet_not_merge_tree: "quiet e \<Longrightarrow> \<not> is_merge_tree e"
  by (simp add: quiet_def)

lemma quiet_no_report: "quiet e \<Longrightarrow> ls_report e = None"
  by (auto simp: quiet_def is_ls_files_def ls_report_def split: event.splits sum.splits)

lemma not_ls_no_report: "\<not> is_ls_files e \<Longrightarrow> ls_report e = None"
  by (auto simp: is_ls_files_def ls_report_def split: event.splits sum.splits)

lemma spec_runGitWithIndex:
  "spec (runGitWithIndex sys ti args)
     (\<lambda>r evs. (evs = [] \<and> (\<exists>e. r = Inl e)) \<or>
               evs = [Ran (JStr (js ''git'') # args) [((js ''GIT_INDEX_FILE''), the (path ti))] r])"
  unfolding runGitWithIndex_def
  by (auto intro!: spec_throw intro: spec_weaken [OF spec_runCmd])

lemma spec_checkConflictsWithReadTree:
  "spec (checkConflictsWithReadTree sys b oc tc ti)
     (\<lambda>r evs. list_all (\<lambda>e. \<not> is_merge_tree e) evs \<and> (\<forall>fs. r = Inr fs \<longrightarrow> reported fs evs))"
  unfolding checkConflictsWithReadTree_def
proof (rule spec_bind)
  show "spec (io_catch (runGitWithIndex sys ti (read_tree_cmd b oc tc))
                (\<lambda>_. io_return \<lparr>code = 1, stdout = [], stderr = []\<rparr>))
          (\<lambda>r evs. list_all quiet evs)"
    by (rule spec_catch [OF spec_runGitWithIndex, where ?Q2.0 = "\<lambda>e r evs. evs = []"])
       (auto intro!: spec_return simp: quiet_simps read_tree_cmd_def)
next
  fix x :: CmdResult
  show "spec (io_bind (runGitWithIndex sys ti ls_files_cmd) (\<lambda>lsRes. io_return (parseUnmergedFiles (stdout lsRes))))
          (\<lambda>r evs. list_all (\<lambda>e. \<not> is_merge_tree e) evs \<and> (\<forall>fs. r = Inr fs \<longrightarrow> reported fs evs))"
    by (rule spec_bind [OF spec_runGitWithIndex, where ?Q2.0 = "\<lambda>x r evs. evs = [] \<and> r = Inr (parseUnmergedFiles (stdout x))"])
       (auto intro!: spec_return simp: reported_def ls_report_def is_merge_tree_def ls_files_cmd_def)
next
  fix e evs assume "list_all quiet evs"
  then show "list_all (\<lambda>e. \<not> is_merge_tree e) evs \<and> (\<forall>fs. (Inl e :: exn + jstring list) = Inr fs \<longrightarrow> reported fs evs)"
    by (auto simp: list_all_iff quiet_not_merge_tree)
next
  fix x :: CmdResult and e1 and r :: "exn + jstring list" and e2
  assume "list_all quiet e1"
    and "list_all (\<lambda>e. \<not> is_merge_tree e) e2 \<and> (\<forall>fs. r = Inr fs \<longrightarrow> reported fs e2)"
  then show "list_all (\<lambda>e. \<not> is_merge_tree e) (e1 @ e2) \<and> (\<forall>fs. r = Inr fs \<longrightarrow> reported fs (e1 @ e2))"
    by (auto simp: list_all_iff list_ex_iff reported_def quiet_not_merge_tree quiet_no_report)
qed

lemma fill_details_keeps:
  "fill_details sys oc tc mb fs result s = (Inr res, s') \<Longrightarrow>
   conflicts res = conflicts result \<and> conflicted_files res = conflicted_files result"
proof (induction fs arbitrary: result s)
  case Nil
  then show ?case by (simp add: io_return_def)
next
  case (Cons f fs)
  then show ?case
    by (auto simp: io_bind_def split: prod.splits sum.splits)
qed

lemma spec_fill_keeps:
  "spec (fill_details sys oc tc mb fs result)
     (\<lambda>r evs. list_all quiet evs \<and> (\<forall>res. r = Inr res \<longrightarrow> conflicts res = conflicts result))"
  unfolding spec_def
proof
  fix s
  obtain r w tr where m: "fill_details sys oc tc mb fs result s = (r, (w, tr))"
    by (cases "fill_details sys oc tc mb fs result s") auto
  from emitsD [OF emits_fill_details m] obtain evs where "tr = snd s @ evs" "list_all quiet evs" by blast
  moreover have "\<forall>res. r = Inr res \<longrightarrow> conflicts res = conflicts result"
    using fill_details_keeps m by blast
  ultimately show "\<exists>evs. snd (snd (fill_details sys oc tc mb fs result s)) = snd s @ evs \<and>
            list_all quiet evs \<and>
            (\<forall>res. fst (fill_details sys oc tc mb fs result s) = Inr res \<longrightarrow> conflicts res = conflicts result)"
    using m by auto
qed

lemma spec_primary_strategy:
  "spec (primary_strategy sys pd b ot tt oc tc mb ti result) primary_shape"
  unfolding primary_strategy_def
proof (rule spec_bind [OF spec_checkConflictsWithReadTree,
    where ?Q2.0 = "\<lambda>fs r evs. list_all quiet evs \<and>
       (\<forall>res. r = Inr (None, res) \<longrightarrow> fs = []) \<and> (\<forall>c res. r = Inr (Some c, res) \<longrightarrow> c = 1 \<and> conflicts res)"])
  fix fs
  show "spec (if 0 < length fs
          then let result1 = result\<lparr>conflicts := True, conflicted_files := fs\<rparr>
               in io_bind (if pd then fill_details sys oc tc (or_undefined mb) fs result1 else io_return result1)
                    (\<lambda>result2. io_return (Some 1, result2))
          else io_return (None, result))
     (\<lambda>r evs. list_all quiet evs \<and> (\<forall>res. r = Inr (None, res) \<longrightarrow> fs = []) \<and>
               (\<forall>c res. r = Inr (Some c, res) \<longrightarrow> c = 1 \<and> conflicts res))"
  proof (cases "0 < length fs")
    case False
    then show ?thesis by (auto intro!: spec_return)
  next
    case True
    have "spec (io_bind (if pd then fill_details sys oc tc (or_undefined mb) fs (result\<lparr>conflicts := True, conflicted_files := fs\<rparr>)
                         else io_return (result\<lparr>conflicts := True, conflicted_files := fs\<rparr>))
                 (\<lambda>result2. io_return (Some 1, result2)))
            (\<lambda>r evs. list_all quiet evs \<and> (\<forall>res. r = Inr (None, res) \<longrightarrow> fs = []) \<and>
               (\<forall>c res. r = Inr (Some c, res) \<longrightarrow> c = 1 \<and> conflicts res))"
    proof (rule spec_bind [where ?Q1.0 = "\<lambda>r evs. list_all quiet evs \<and> (\<forall>res. r = Inr res \<longrightarrow> conflicts res)"
          and ?Q2.0 = "\<lambda>x r evs. evs = [] \<and> r = Inr (Some 1, x)"])
      show "spec (if pd then fill_details sys oc tc (or_undefined mb) fs (result\<lparr>conflicts := True, conflicted_files := fs\<rparr>)
                  else io_return (result\<lparr>conflicts := True, conflicted_files := fs\<rparr>))
              (\<lambda>r evs. list_all quiet evs \<and> (\<forall>res. r = Inr res \<longrightarrow> conflicts res))"
        by (cases pd) (auto intro!: spec_return intro: spec_weaken [OF spec_fill_keeps])
    qed (auto intro!: spec_return)
    with True show ?thesis by (simp add: Let_def)
  qed
next
  fix e evs
  assume "list_all (\<lambda>e. \<not> is_merge_tree e) evs \<and> (\<forall>fs. (Inl e :: exn + jstring list) = Inr fs \<longrightarrow> reported fs evs)"
  then show "primary_shape (Inl e) evs" by (simp add: primary_shape_def)
next
  fix x :: "jstring list" and e1 and r :: "exn + int option \<times> ConflictCheckResult" and e2
  assume "list_all (\<lambda>e. \<not> is_merge_tree e) e1 \<and> (\<forall>fs. (Inr x :: exn + jstring list) = Inr fs \<longrightarrow> reported fs e1)"
    and "list_all quiet e2 \<and> (\<forall>res. r = Inr (None, res) \<longrightarrow> x = []) \<and>
       (\<forall>c res. r = Inr (Some c, res) \<longrightarrow> c = 1 \<and> conflicts res)"
  then show "primary_shape r (e1 @ e2)"
    by (auto simp: primary_shape_def reported_def list_all_iff list_ex_iff quiet_not_merge_tree quiet_no_report)
qed

lemma primary_shape_append:
  "list_all quiet e1 \<Longrightarrow> primary_shape r e2 \<Longrightarrow> list_all quiet e3 \<Longrightarrow> primary_shape r (e1 @ e2 @ e3)"
  by (auto simp: primary_shape_def reported_def list_all_iff list_ex_iff quiet_not_merge_tree quiet_no_report)

lemma spec_guarded_primary:
  "spec (guarded_primary sys pd b ot tt oc tc mb result) primary_shape"
  unfolding spec_def
proof
  fix s :: "'a st"
  let ?g = "guarded_primary sys pd b ot tt oc tc mb result s"
  obtain a s1 where cr: "create sys new_TempIndex s = (a, s1)" by (cases "create sys new_TempIndex s")
  from emitsD [OF emits_create, of sys new_TempIndex s a "fst s1" "snd s1"] cr
  obtain e1 where e1: "snd s1 = snd s @ e1" "list_all quiet e1" by auto
  show "\<exists>evs. snd (snd ?g) = snd s @ evs \<and> primary_shape (fst ?g) evs"
  proof (cases a)
    case (Inl e)
    then have g: "?g = io_finally (io_throw e) (cleanup sys new_TempIndex) s1"
      using cr by (simp add: guarded_primary_def)
    have "\<not> has_path new_TempIndex" by (simp add: new_TempIndex_def has_path_def)
    then have "cleanup sys new_TempIndex s1 = (Inr new_TempIndex, s1)"
      by (simp add: cleanup_def io_return_def)
    then have "?g = (Inl e, s1)" using g by (simp add: io_finally_def io_throw_def)
    moreover have "primary_shape (Inl e) e1"
      using e1(2) by (auto simp: primary_shape_def list_all_iff quiet_not_merge_tree)
    ultimately show ?thesis using e1(1) by auto
  next
    case (Inr x)
    obtain p ti where x: "x = (p, ti)" by (cases x)
    let ?m = "io_finally (primary_strategy sys pd b ot tt oc tc mb ti result) (cleanup sys ti)"
    have g: "?g = ?m s1" using cr Inr x by (simp add: guarded_primary_def)
    have "spec ?m (\<lambda>r evs. \<exists>e2 e3. evs = e2 @ e3 \<and> primary_shape r e2 \<and> list_all quiet e3)"
    proof (rule spec_finally [OF spec_primary_strategy, where ?Q2.0 = "\<lambda>r evs. list_all quiet evs \<and> (\<exists>t. r = Inr t)"])
      show "spec (cleanup sys ti) (\<lambda>r evs. list_all quiet evs \<and> (\<exists>t. r = Inr t))"
        unfolding spec_def
      proof
        fix s2 :: "'a st"
        obtain r2 w2 t2 where c: "cleanup sys ti s2 = (r2, (w2, t2))" by (cases "cleanup sys ti s2") auto
        from emitsD [OF emits_cleanup c] obtain evs where "t2 = snd s2 @ evs" "list_all quiet evs" by blast
        moreover have "\<exists>t. r2 = Inr t"
          using c by (auto simp: cleanup_def io_catch_def io_bind_def io_return_def split: if_splits prod.splits sum.splits)
        ultimately show "\<exists>evs. snd (snd (cleanup sys ti s2)) = snd s2 @ evs \<and> list_all quiet evs \<and> (\<exists>t. fst (cleanup sys ti s2) = Inr t)"
          using c by auto
      qed
    qed (clarsimp, blast)
    then obtain e2 e3 where
      "snd (snd (?m s1)) = snd s1 @ e2 @ e3" "primary_shape (fst (?m s1)) e2" "list_all quiet e3"
      unfolding spec_def by blast
    then show ?thesis using g e1 primary_shape_append [of e1 _ e2 e3] by auto
  qed
qed

lemma not_ls_merge_tree: "\<not> is_ls_files (Ran (JStr (js ''git'') # JStr (js ''merge-tree'') # cs) env r)"
  by (simp add: is_ls_files_def ls_files_cmd_def)

lemma quiet_not_ls: "quiet e \<Longrightarrow> \<not> is_ls_files e"
  by (simp add: quiet_def)

lemma emits_fallback_strategy:
  "emits (\<lambda>e. \<not> is_ls_files e) (fallback_strategy sys pd oc tc mb et result)"
  unfolding fallback_strategy_def checkConflictsWithMergeTree_def getConflictingFilesFromMergeTree_def
    merge_tree_cmd_def Let_def
  by (auto intro!: emits_intros emits_mono [OF emits_fill_details] simp: not_ls_merge_tree quiet_not_ls)

lemma pipeline_shape_Inl: "list_all quiet evs \<Longrightarrow> pipeline_shape (Inl e) evs"
  by (auto simp: pipeline_shape_def list_all_iff quiet_not_merge_tree)

lemma pipeline_shape_prepend:
  assumes "list_all quiet e1" and "pipeline_shape r e2"
  shows "pipeline_shape r (e1 @ e2)"
proof -
  from assms(2) consider
    (a) "list_all (\<lambda>e. \<not> is_merge_tree e) e2" "\<forall>c res. r = Inr (c, res) \<longrightarrow> c = 1 \<and> conflicts res"
  | (b) A B where "e2 = A @ B" "list_all (\<lambda>e. \<not> is_merge_tree e) A"
      "list_ex (\<lambda>e. ls_report e = Some []) A" "list_all (\<lambda>e. ls_report e = None \<or> ls_report e = Some []) e2"
    unfolding pipeline_shape_def by blast
  then show ?thesis
  proof cases
    case a
    then show ?thesis using assms(1)
      by (auto simp: pipeline_shape_def list_all_iff quiet_not_merge_tree)
  next
    case b
    have "e1 @ e2 = (e1 @ A) @ B" using b(1) by simp
    moreover have "list_all (\<lambda>e. \<not> is_merge_tree e) (e1 @ A)"
      using assms(1) b(2) by (auto simp: list_all_iff quiet_not_merge_tree)
    moreover have "list_ex (\<lambda>e. ls_report e = Some []) (e1 @ A)" using b(3) by (auto simp: list_ex_iff)
    moreover have "list_all (\<lambda>e. ls_report e = None \<or> ls_report e = Some []) (e1 @ e2)"
      using assms(1) b(4) by (auto simp: list_all_iff quiet_no_report)
    ultimately show ?thesis unfolding pipeline_shape_def by blast
  qed
qed

lemma spec_bind_quiet:
  assumes "emits quiet m" and "\<And>x. spec (f x) pipeline_shape"
  shows "spec (io_bind m f) pipeline_shape"
  using assms(1) unfolding emits_def
  by (rule spec_bind [OF _ assms(2)]) (auto intro: pipeline_shape_Inl pipeline_shape_prepend)

lemma spec_after_primary:
  "spec (io_bind (guarded_primary sys pd b ot tt oc tc mb result)
          (\<lambda>(returned, result1).
             (case returned of
                Some exit_code \<Rightarrow> io_return (exit_code, result1)
              | None \<Rightarrow> fallback_strategy sys pd oc tc mb et result1)))
     pipeline_shape"
proof (rule spec_bind [OF spec_guarded_primary,
    where ?Q2.0 = "\<lambda>x r evs. case fst x of Some c \<Rightarrow> evs = [] \<and> r = Inr (c, snd x)
                                        | None \<Rightarrow> list_all (\<lambda>e. \<not> is_ls_files e) evs"])
  fix x :: "int option \<times> ConflictCheckResult"
  show "spec (case x of (returned, result1) \<Rightarrow>
                (case returned of Some exit_code \<Rightarrow> io_return (exit_code, result1)
                 | None \<Rightarrow> fallback_strategy sys pd oc tc mb et result1))
          (\<lambda>r evs. case fst x of Some c \<Rightarrow> evs = [] \<and> r = Inr (c, snd x)
                              | None \<Rightarrow> list_all (\<lambda>e. \<not> is_ls_files e) evs)"
    using emits_fallback_strategy [of sys pd oc tc mb et "snd x"]
    by (cases x) (auto simp: emits_def intro!: spec_return split: option.splits)
next
  fix e evs assume "primary_shape (Inl e) evs"
  then show "pipeline_shape (Inl e) evs" by (simp add: primary_shape_def pipeline_shape_def)
next
  fix x :: "int option \<times> ConflictCheckResult" and e1 and r :: "exn + int \<times> ConflictCheckResult" and e2
  assume p: "primary_shape (Inr x) e1"
    and q: "case fst x of Some c \<Rightarrow> e2 = [] \<and> r = Inr (c, snd x)
            | None \<Rightarrow> list_all (\<lambda>e. \<not> is_ls_files e) e2"
  show "pipeline_shape r (e1 @ e2)"
  proof (cases "fst x")
    case (Some c)
    then have "x = (Some c, snd x)" by (cases x) simp
    with p have "c = 1 \<and> conflicts (snd x)" "list_all (\<lambda>e. \<not> is_merge_tree e) e1"
      unfolding primary_shape_def by blast+
    with q Some show ?thesis by (simp add: pipeline_shape_def)
  next
    case None
    then have "x = (None, snd x)" by (cases x) simp
    with p have "reported [] e1" "list_all (\<lambda>e. \<not> is_merge_tree e) e1"
      unfolding primary_shape_def by blast+
    moreover have "list_all (\<lambda>e. ls_report e = None) e2"
      using q None by (auto simp: list_all_iff not_ls_no_report)
    ultimately have "list_all (\<lambda>e. \<not> is_merge_tree e) e1 \<and> list_ex (\<lambda>e. ls_report e = Some []) e1 \<and>
        list_all (\<lambda>e. ls_report e = None \<or> ls_report e = Some []) (e1 @ e2)"
      by (auto simp: reported_def list_all_iff)
    then show ?thesis unfolding pipeline_shape_def by blast
  qed
qed

lemma spec_main: "spec (main sys currentRef otherRef printDiffs) pipeline_shape"
  unfolding main_def Let_def
  by (intro spec_bind_quiet emits_resolveCommit emits_catch emits_throw emits_async
        emits_getEmptyTreeHash emits_runCmd emits_revToTree spec_after_primary)
     (simp_all add: quiet_simps)

section \<open>The order of the two strategies\<close>

text \<open>
  C7. In every run of main, a \<^verbatim>\<open>git merge-tree\<close> (the fallback) comes only after
  an \<^verbatim>\<open>ls-files\<close> of the primary strategy that reported no unmerged path; and once
  the primary strategy has reported at least one, the run holds no
  \<^verbatim>\<open>merge-tree\<close> at all, and where main returns it returns 1 with the conflicts
  flag set.
\<close>

theorem fallback_only_after_empty_primary:
  assumes "main sys currentRef otherRef printDiffs (w, []) = (out, (w', tr))"
  shows "(\<forall>j<length tr. is_merge_tree (tr ! j) \<longrightarrow> (\<exists>i<j. ls_report (tr ! i) = Some [])) \<and>
         ((\<exists>e\<in>set tr. \<exists>fs. ls_report e = Some fs \<and> fs \<noteq> []) \<longrightarrow>
            (\<forall>e\<in>set tr. \<not> is_merge_tree e) \<and>
            (\<forall>c res. out = Inr (c, res) \<longrightarrow> c = 1 \<and> conflicts res))"
proof -
  from specD [OF spec_main assms] have ps: "pipeline_shape out tr" by simp
  then consider
    (a) "list_all (\<lambda>e. \<not> is_merge_tree e) tr" "\<forall>c res. out = Inr (c, res) \<longrightarrow> c = 1 \<and> conflicts res"
  | (b) A B where "tr = A @ B" "list_all (\<lambda>e. \<not> is_merge_tree e) A"
      "list_ex (\<lambda>e. ls_report e = Some []) A" "list_all (\<lambda>e. ls_report e = None \<or> ls_report e = Some []) tr"
    unfolding pipeline_shape_def by blast
  then show ?thesis
  proof cases
    case a
    then show ?thesis by (auto simp: list_all_iff)
  next
    case b
    have one: "\<forall>j<length tr. is_merge_tree (tr ! j) \<longrightarrow> (\<exists>i<j. ls_report (tr ! i) = Some [])"
    proof (intro allI impI)
      fix j assume j: "j < length tr" and mt: "is_merge_tree (tr ! j)"
      have "\<not> j < length A"
      proof
        assume "j < length A"
        then have "tr ! j \<in> set A" using b(1) by (simp add: nth_append)
        with b(2) mt show False by (auto simp: list_all_iff)
      qed
      moreover from b(3) obtain i where "i < length A" "ls_report (A ! i) = Some []"
        by (auto simp: list_ex_iff in_set_conv_nth)
      ultimately show "\<exists>i<j. ls_report (tr ! i) = Some []"
        using b(1) by (auto simp: nth_append intro!: exI [of _ i])
    qed
    have two: "\<not> (\<exists>e\<in>set tr. \<exists>fs. ls_report e = Some fs \<and> fs \<noteq> [])"
      using b(4) by (auto simp: list_all_iff)
    from one two show ?thesis by blast
  qed
qed

theorem fallback_only_after_empty_primary_witness:
  "ls_report (snd (snd (main (scripted conflicting) (js ''main'') (js ''other'') False ([], []))) ! 9)
     = Some [(js ''file.txt''), (js ''other.txt'')] \<and>
   \<not> list_ex is_merge_tree (snd (snd (main (scripted conflicting) (js ''main'') (js ''other'') False ([], [])))) \<and>
   is_merge_tree (snd (snd (main (scripted orphans) (js ''main'') (js ''other'') False ([], []))) ! 10) \<and>
   (\<exists>i<10. ls_report (snd (snd (main (scripted orphans) (js ''main'') (js ''other'') False ([], []))) ! i) = Some [])"
proof -
  let ?c = "main (scripted conflicting) (js ''main'') (js ''other'') False ([], [])"
  let ?o = "main (scripted orphans) (js ''main'') (js ''other'') False ([], [])"
  have c: "?c = (fst ?c, (fst (snd ?c), snd (snd ?c)))" by simp
  have o: "?o = (fst ?o, (fst (snd ?o), snd (snd ?o)))" by simp
  have rep: "ls_report (snd (snd ?c) ! 9) = Some [(js ''file.txt''), (js ''other.txt'')]" by code_simp
  have len: "9 < length (snd (snd ?c))" by code_simp
  have mt: "is_merge_tree (snd (snd ?o) ! 10)" by code_simp
  have leno: "10 < length (snd (snd ?o))" by code_simp
  from rep len have "\<exists>e\<in>set (snd (snd ?c)). \<exists>fs. ls_report e = Some fs \<and> fs \<noteq> []"
    by (intro bexI [of _ "snd (snd ?c) ! 9"]) auto
  with fallback_only_after_empty_primary [OF c] have "\<forall>e\<in>set (snd (snd ?c)). \<not> is_merge_tree e" by blast
  then have 1: "\<not> list_ex is_merge_tree (snd (snd ?c))" by (simp add: list_ex_iff)
  from fallback_only_after_empty_primary [OF o] mt leno
  have 2: "\<exists>i<10. ls_report (snd (snd ?o) ! i) = Some []" by blast
  from rep 1 mt 2 show ?thesis by blast
qed

section \<open>Histories without a common ancestor\<close>

text \<open>
  Without a merge base, the base argument of the fallback is whatever \<^verbatim>\<open>emptyTree\<close>
  is; where that is a promise, the command line holds the promise.
\<close>

lemma merge_tree_cmd_promise:
  "merge_tree_cmd (js_or (JStr []) (JPromise x)) oc tc (JPromise x)
     = [JStr (js ''git''), JStr (js ''merge-tree''), JPromise x, JStr oc, JStr tc]"
  by (simp add: merge_tree_cmd_def js_or_def)

text \<open>
  C3 fails on the code. For two histories without a common ancestor that touch
  different files, main returns 0 with \<^verbatim>\<open>merge_base\<close> null, and the primary
  strategy is given the empty-tree id as its base; but the command line of the
  fallback holds the promise that line 175 never awaited, not the empty-tree id. (Deno
  turns the arguments into strings, so git is asked about \<^verbatim>\<open>[object Promise]\<close>;
  the scripted system answers it, as any unlisted command line, with a failure.)
\<close>

theorem main_orphans_fallback_base:
  "(case fst (main (scripted orphans) (js ''main'') (js ''other'') False ([], [])) of
      Inr (exit_code, result) \<Rightarrow> exit_code = 0 \<and> merge_base result = None \<and> \<not> conflicts result
    | Inl e \<Rightarrow> False) \<and>
   commands (snd (snd (main (scripted orphans) (js ''main'') (js ''other'') False ([], [])))) ! 6
     = JStr (js ''git'') # read_tree_cmd well_known_empty_tree ours_tree theirs_tree \<and>
   commands (snd (snd (main (scripted orphans) (js ''main'') (js ''other'') False ([], [])))) ! 8
     = [JStr (js ''git''), JStr (js ''merge-tree''), JPromise (Inr well_known_empty_tree), JStr ours_id, JStr theirs_id] \<and>
   length (commands (snd (snd (main (scripted orphans) (js ''main'') (js ''other'') False ([], []))))) = 9"
  by code_simp

end
